theory Spec2Isabelle
  imports Main
begin

section \<open>Data model of the storefront page (src/app/page.tsx)\<close>

text \<open>
  JavaScript strings are modelled as HOL strings (lists of code units). The functions
  of the page itself only pick the ASCII digits out of a string and compare code units
  for equality; the two built-in functions that depend on the characters beyond that,
  \<open>toLowerCase\<close> and \<open>localeCompare\<close>, are parameters of the model.

  A JavaScript \<open>number\<close> is an IEEE 754 double. \<open>jsnumber\<close> has the doubles that the
  page computes with: \<open>Finite i\<close> is the double whose value is the integer \<open>i\<close>, and
  the other three values are \<open>+Infinity\<close>, \<open>-Infinity\<close> and \<open>NaN\<close>. Every operation
  below rounds its result to a double, so that an integer which no double has never
  comes out of one. Doubles with a fractional part are not represented: a price is
  \<open>Number\<close> of a string of digits, and a quantity is a count.
\<close>

datatype jsnumber = Finite int | PosInfinity | NegInfinity | NaN

record CartItem =
  productId :: string
  name :: string
  price :: jsnumber
  quantity :: jsnumber

record Product =
  product_id :: string
  product_name :: string
  product_price :: string
  product_desc :: "string option"
  product_colors :: "string list option"
  product_sizes :: "string list option"
  product_justIn :: "bool option"
  product_defaultImage_url :: string

section \<open>Price parsing: \<open>Number(price.replace(/[^\d]/g, ""))\<close>\<close>

text \<open>The class \<open>\d\<close> of a JavaScript regular expression is exactly \<open>0-9\<close>.\<close>

definition is_digit :: "char \<Rightarrow> bool" where
  "is_digit c = (c \<in> set ''0123456789'')"

definition digit_value :: "char \<Rightarrow> nat" where
  "digit_value c = of_char c - 48"

text \<open>\<open>s.replace(/[^\d]/g, "")\<close>: every code unit that is not a digit is deleted.\<close>

definition strip_non_digits :: "string \<Rightarrow> string" where
  "strip_non_digits s = filter is_digit s"

text \<open>
  The mathematical value of a string of decimal digits, read left to right; the empty
  string has the value 0, as \<open>Number("")\<close> has.
\<close>

definition decimal_value :: "string \<Rightarrow> nat" where
  "decimal_value ds = foldl (\<lambda>acc c. 10 * acc + digit_value c) 0 ds"

function bit_length :: "nat \<Rightarrow> nat" where
  "bit_length n = (if n = 0 then 0 else Suc (bit_length (n div 2)))"
  by pat_completeness auto
termination
  by (relation "measure id") auto

declare bit_length.simps [simp del]

text \<open>
  The Number value for a non-negative integer: the nearest double, a tie going to the
  even significand of 53 bits, and \<open>+Infinity\<close> from \<open>2 ^ 1024\<close> on. An integer of
  at most 53 bits is a double already. (For a literal of more than 20 significant
  digits ECMAScript also allows rounding from its first 20 digits; the correctly
  rounded value, which the model takes, is always allowed.)
\<close>

definition round_to_double :: "nat \<Rightarrow> jsnumber" where
  "round_to_double n =
     (let len = bit_length n in
      if len \<le> 53 then Finite (int n)
      else
        let e = len - 53;
            q = n div 2 ^ e;
            r = n mod 2 ^ e;
            half = 2 ^ (e - 1);
            q' = (if half < r \<or> (r = half \<and> odd q) then q + 1 else q);
            v = q' * 2 ^ e
        in if 2 ^ 1024 \<le> v then PosInfinity else Finite (int v))"

text \<open>\<open>Number(ds)\<close> on a string \<open>ds\<close> of decimal digits (possibly empty).\<close>

definition Number_of_digits :: "string \<Rightarrow> jsnumber" where
  "Number_of_digits ds = round_to_double (decimal_value ds)"

text \<open>
  The expression \<open>Number(x.price.replace(/[^\d]/g, ""))\<close>, which the two price
  comparators of \<open>sortedProducts\<close> and \<open>handleAddToCart\<close> (as \<open>priceNum\<close>) share.
\<close>

definition parse_price :: "string \<Rightarrow> jsnumber" where
  "parse_price s = Number_of_digits (strip_non_digits s)"

definition priceNum :: "Product \<Rightarrow> jsnumber" where
  "priceNum product = parse_price (product_price product)"

definition is_non_negative :: "jsnumber \<Rightarrow> bool" where
  "is_non_negative x =
     (case x of Finite i \<Rightarrow> 0 \<le> i | PosInfinity \<Rightarrow> True | NegInfinity \<Rightarrow> False
      | NaN \<Rightarrow> False)"

definition is_integer :: "jsnumber \<Rightarrow> bool" where
  "is_integer x =
     (case x of Finite i \<Rightarrow> True | PosInfinity \<Rightarrow> False | NegInfinity \<Rightarrow> False
      | NaN \<Rightarrow> False)"

section \<open>Addition of numbers\<close>

text \<open>
  The Number value for an integer of either sign: rounding is symmetric, so the
  magnitude is rounded and the sign put back.
\<close>

definition negate :: "jsnumber \<Rightarrow> jsnumber" where
  "negate x =
     (case x of Finite i \<Rightarrow> Finite (- i) | PosInfinity \<Rightarrow> NegInfinity
      | NegInfinity \<Rightarrow> PosInfinity | NaN \<Rightarrow> NaN)"

definition round_integer :: "int \<Rightarrow> jsnumber" where
  "round_integer i =
     (if 0 \<le> i then round_to_double (nat i) else negate (round_to_double (nat (- i))))"

text \<open>
  \<open>a + b\<close> on numbers: the exact sum of two finite values, rounded to a double;
  \<open>NaN\<close> if an operand is \<open>NaN\<close> or the operands are the two infinities; otherwise
  the infinite operand.
\<close>

fun js_add :: "jsnumber \<Rightarrow> jsnumber \<Rightarrow> jsnumber" where
  "js_add (Finite a) (Finite b) = round_integer (a + b)"
| "js_add NaN y = NaN"
| "js_add x NaN = NaN"
| "js_add PosInfinity NegInfinity = NaN"
| "js_add NegInfinity PosInfinity = NaN"
| "js_add PosInfinity y = PosInfinity"
| "js_add x PosInfinity = PosInfinity"
| "js_add NegInfinity y = NegInfinity"
| "js_add x NegInfinity = NegInfinity"

text \<open>
  The integer that a finite number stands for, and the numbers that are counts: the
  finite ones that are not negative.
\<close>

definition finite_value :: "jsnumber \<Rightarrow> int" where
  "finite_value x = (case x of Finite i \<Rightarrow> i | _ \<Rightarrow> 0)"

definition is_count :: "jsnumber \<Rightarrow> bool" where
  "is_count x = (case x of Finite i \<Rightarrow> 0 \<le> i | _ \<Rightarrow> False)"

section \<open>State of the \<open>Home\<close> component\<close>

record User =
  uid :: string
  displayName :: "string option"
  email :: "string option"

record Home_state =
  products :: "Product list"
  cartCount :: jsnumber
  cartItems :: "CartItem list"
  searchTerm :: string
  sortOption :: string
  filterJustIn :: string
  visibleCount :: nat
  user :: "User option"
  authLoading :: bool
  productsLoading :: bool

text \<open>The initial values given to \<open>useState\<close>.\<close>

definition initial_state :: Home_state where
  "initial_state =
     \<lparr>products = [], cartCount = Finite 0, cartItems = [], searchTerm = '''',
      sortOption = ''name-asc'', filterJustIn = '''', visibleCount = 10,
      user = None, authLoading = True, productsLoading = True\<rparr>"

section \<open>Derived data: filtering\<close>

text \<open>\<open>s.includes(t)\<close>: \<open>t\<close> occurs in \<open>s\<close> as a contiguous run of code units.\<close>

fun starts_with :: "'a list \<Rightarrow> 'a list \<Rightarrow> bool" where
  "starts_with s [] = True"
| "starts_with [] (t # ts) = False"
| "starts_with (c # s) (t # ts) = (c = t \<and> starts_with s ts)"

fun string_includes :: "'a list \<Rightarrow> 'a list \<Rightarrow> bool" where
  "string_includes [] t = (t = [])"
| "string_includes (c # s) t = (starts_with (c # s) t \<or> string_includes s t)"

text \<open>
  \<open>filteredProducts\<close>. The built-in \<open>String.prototype.toLowerCase\<close> is a parameter:
  nothing is assumed about it. \<open>justIn\<close> is an optional field, so \<open>p.justIn === true\<close>
  is \<open>product_justIn p = Some True\<close>, and a product without the field passes neither
  \<open>=== true\<close> nor \<open>=== false\<close>.
\<close>

definition filteredProducts ::
    "(string \<Rightarrow> string) \<Rightarrow> Product list \<Rightarrow> string \<Rightarrow> string \<Rightarrow> Product list" where
  "filteredProducts toLowerCase ps term flt =
     filter (\<lambda>p. string_includes (toLowerCase (product_name p)) (toLowerCase term) \<and>
                 (if flt = '''' then True
                  else if flt = ''justIn'' then product_justIn p = Some True
                  else product_justIn p = Some False)) ps"

text \<open>
  The words of the specification for the filter. A string contains another one as a
  substring; the containment is case-insensitive when both are lower-cased first; the
  three modes of the recent filter are the three options of the select element
  (\<open>""\<close>, \<open>"justIn"\<close>, \<open>"notJustIn"\<close>; the code takes any other value as the last).
\<close>

definition contains_substring :: "'a list \<Rightarrow> 'a list \<Rightarrow> bool" where
  "contains_substring s t = (\<exists>before after. s = before @ t @ after)"

definition contains_case_insensitive :: "(string \<Rightarrow> string) \<Rightarrow> string \<Rightarrow> string \<Rightarrow> bool" where
  "contains_case_insensitive toLowerCase s t =
     contains_substring (toLowerCase s) (toLowerCase t)"

datatype recent_filter = AllProducts | OnlyRecent | OnlyNotRecent

definition recent_filter_of :: "string \<Rightarrow> recent_filter" where
  "recent_filter_of flt =
     (if flt = '''' then AllProducts else if flt = ''justIn'' then OnlyRecent
      else OnlyNotRecent)"

fun matches_recent_filter :: "recent_filter \<Rightarrow> Product \<Rightarrow> bool" where
  "matches_recent_filter AllProducts p = True"
| "matches_recent_filter OnlyRecent p = (product_justIn p = Some True)"
| "matches_recent_filter OnlyNotRecent p = (product_justIn p = Some False)"

section \<open>Derived data: sorting\<close>

text \<open>
  \<open>Array.prototype.sort\<close> with a comparator. ECMAScript requires the sort to be
  stable, and for a consistent comparator the result is the sorted permutation in which
  elements that compare equal keep their order; that list is unique, and a stable
  insertion sort computes it. The comparator returns a number of which only the sign is
  used; it is modelled with the result type \<open>int\<close>.
\<close>

fun insert_by :: "('a \<Rightarrow> 'a \<Rightarrow> int) \<Rightarrow> 'a \<Rightarrow> 'a list \<Rightarrow> 'a list" where
  "insert_by cmp x [] = [x]"
| "insert_by cmp x (y # ys) =
     (if cmp x y \<le> 0 then x # y # ys else y # insert_by cmp x ys)"

definition sort_by :: "('a \<Rightarrow> 'a \<Rightarrow> int) \<Rightarrow> 'a list \<Rightarrow> 'a list" where
  "sort_by cmp xs = foldr (insert_by cmp) xs []"

text \<open>
  The sign of \<open>a - b\<close>, which is all that the sort uses of a comparator's result.
  The difference of two finite doubles has the sign of the exact difference. It is
  \<open>NaN\<close> when an operand is \<open>NaN\<close> or both are the same infinity, and the sort takes
  \<open>NaN\<close> as 0.
\<close>

fun number_minus :: "jsnumber \<Rightarrow> jsnumber \<Rightarrow> int" where
  "number_minus (Finite x) (Finite y) = sgn (x - y)"
| "number_minus NaN y = 0"
| "number_minus x NaN = 0"
| "number_minus PosInfinity PosInfinity = 0"
| "number_minus NegInfinity NegInfinity = 0"
| "number_minus PosInfinity y = 1"
| "number_minus x PosInfinity = - 1"
| "number_minus NegInfinity y = - 1"
| "number_minus x NegInfinity = 1"

text \<open>
  \<open>sortedProducts\<close>. The built-in \<open>String.prototype.localeCompare\<close> is a parameter.
\<close>

definition sortedProducts ::
    "(string \<Rightarrow> string \<Rightarrow> int) \<Rightarrow> Product list \<Rightarrow> string \<Rightarrow> Product list" where
  "sortedProducts localeCompare filtered opt =
     (if opt = ''name-asc'' then
        sort_by (\<lambda>a b. localeCompare (product_name a) (product_name b)) filtered
      else if opt = ''name-desc'' then
        sort_by (\<lambda>a b. localeCompare (product_name b) (product_name a)) filtered
      else if opt = ''price-asc'' then
        sort_by (\<lambda>a b. number_minus (priceNum a) (priceNum b)) filtered
      else if opt = ''price-desc'' then
        sort_by (\<lambda>a b. number_minus (priceNum b) (priceNum a)) filtered
      else filtered)"

text \<open>The sorted list that a state of the component renders.\<close>

definition sorted_of ::
    "(string \<Rightarrow> string) \<Rightarrow> (string \<Rightarrow> string \<Rightarrow> int) \<Rightarrow> Home_state \<Rightarrow> Product list" where
  "sorted_of toLowerCase localeCompare s =
     sortedProducts localeCompare
       (filteredProducts toLowerCase (products s) (searchTerm s) (filterJustIn s))
       (sortOption s)"

section \<open>Lazy loading: the visible window\<close>

text \<open>\<open>sortedProducts.slice(0, visibleCount)\<close>.\<close>

definition visibleProducts :: "Product list \<Rightarrow> nat \<Rightarrow> Product list" where
  "visibleProducts sortedList n = take n sortedList"

text \<open>
  The callback of the \<open>IntersectionObserver\<close>. \<open>rendered\<close> is the \<open>visibleCount\<close>
  that the effect captured when it ran, \<open>len\<close> is \<open>sortedProducts.length\<close>, and
  \<open>prev\<close> is the state that the updater function receives.
\<close>

definition observer_callback :: "bool \<Rightarrow> nat \<Rightarrow> nat \<Rightarrow> nat \<Rightarrow> nat" where
  "observer_callback isIntersecting rendered len prev =
     (if isIntersecting \<and> rendered < len then min (prev + 10) len else prev)"

text \<open>
  A sentinel event on a rendered state: the effect has run again after the last change
  of \<open>visibleCount\<close> or of the list, so the captured value is the state's.
\<close>

definition sentinel_event ::
    "(string \<Rightarrow> string) \<Rightarrow> (string \<Rightarrow> string \<Rightarrow> int) \<Rightarrow> bool \<Rightarrow> Home_state \<Rightarrow> Home_state" where
  "sentinel_event toLowerCase localeCompare isIntersecting s =
     s\<lparr>visibleCount :=
         observer_callback isIntersecting (visibleCount s)
           (length (sorted_of toLowerCase localeCompare s)) (visibleCount s)\<rparr>"

text \<open>
  The effect \<open>setVisibleCount(10)\<close> with the dependencies \<open>searchTerm\<close>,
  \<open>sortOption\<close>, \<open>filterJustIn\<close> and \<open>products\<close>. A state setter that is given the
  value the state already has changes nothing and runs no effect. Given another value,
  the component first renders with the new value and the window size it had
  (\<open>commit_searchTerm\<close> and the like), and the effect runs after that render has been
  committed. \<open>setProducts\<close> is only called with the array that \<open>res.json()\<close> has just
  built, which is never the array of the state, so the effect always runs after it.
\<close>

definition reset_effect :: "Home_state \<Rightarrow> Home_state" where
  "reset_effect s = s\<lparr>visibleCount := 10\<rparr>"

definition commit_searchTerm :: "string \<Rightarrow> Home_state \<Rightarrow> Home_state" where
  "commit_searchTerm v s = s\<lparr>searchTerm := v\<rparr>"

definition commit_sortOption :: "string \<Rightarrow> Home_state \<Rightarrow> Home_state" where
  "commit_sortOption v s = s\<lparr>sortOption := v\<rparr>"

definition commit_filterJustIn :: "string \<Rightarrow> Home_state \<Rightarrow> Home_state" where
  "commit_filterJustIn v s = s\<lparr>filterJustIn := v\<rparr>"

definition commit_products :: "Product list \<Rightarrow> Home_state \<Rightarrow> Home_state" where
  "commit_products data s = s\<lparr>products := data\<rparr>"

definition setSearchTerm :: "string \<Rightarrow> Home_state \<Rightarrow> Home_state" where
  "setSearchTerm v s = (if v = searchTerm s then s else reset_effect (commit_searchTerm v s))"

definition setSortOption :: "string \<Rightarrow> Home_state \<Rightarrow> Home_state" where
  "setSortOption v s = (if v = sortOption s then s else reset_effect (commit_sortOption v s))"

definition setFilterJustIn :: "string \<Rightarrow> Home_state \<Rightarrow> Home_state" where
  "setFilterJustIn v s =
     (if v = filterJustIn s then s else reset_effect (commit_filterJustIn v s))"

definition setProducts :: "Product list \<Rightarrow> Home_state \<Rightarrow> Home_state" where
  "setProducts data s = reset_effect (commit_products data s)"

text \<open>
  The states in which the component comes to rest: the initial one, and those that a
  change of an input of the list (with its reset effect), a sentinel event, or a change
  of the state that the list does not depend on (the identity, the cart, the loading
  flags) leads to from one of them.
\<close>

inductive settled ::
    "(string \<Rightarrow> string) \<Rightarrow> (string \<Rightarrow> string \<Rightarrow> int) \<Rightarrow> Home_state \<Rightarrow> bool"
    for toLowerCase :: "string \<Rightarrow> string" and localeCompare :: "string \<Rightarrow> string \<Rightarrow> int" where
  settled_initial: "settled toLowerCase localeCompare initial_state"
| settled_searchTerm:
    "settled toLowerCase localeCompare s \<Longrightarrow>
       settled toLowerCase localeCompare (setSearchTerm v s)"
| settled_sortOption:
    "settled toLowerCase localeCompare s \<Longrightarrow>
       settled toLowerCase localeCompare (setSortOption v s)"
| settled_filterJustIn:
    "settled toLowerCase localeCompare s \<Longrightarrow>
       settled toLowerCase localeCompare (setFilterJustIn v s)"
| settled_products:
    "settled toLowerCase localeCompare s \<Longrightarrow>
       settled toLowerCase localeCompare (setProducts data s)"
| settled_sentinel:
    "settled toLowerCase localeCompare s \<Longrightarrow>
       settled toLowerCase localeCompare
         (sentinel_event toLowerCase localeCompare isIntersecting s)"
| settled_other:
    "settled toLowerCase localeCompare s \<Longrightarrow>
       settled toLowerCase localeCompare
         (s\<lparr>cartCount := n, cartItems := items, user := u, authLoading := a,
            productsLoading := l\<rparr>)"

section \<open>The cart: \<open>handleAddToCart\<close>\<close>

text \<open>
  The first part of \<open>handleAddToCart\<close>, which computes \<open>updatedCartItems\<close>.
  \<open>cartItems.find\<close> returns the first item with the product's identifier, or
  \<open>undefined\<close>; an item is an object and so is truthy. \<open>item.quantity + 1\<close> is
  the addition of doubles.
\<close>

definition updatedCartItems :: "CartItem list \<Rightarrow> Product \<Rightarrow> CartItem list" where
  "updatedCartItems items product =
     (case find (\<lambda>item. productId item = product_id product) items of
        Some existingItem \<Rightarrow>
          map (\<lambda>item. if productId item = product_id product
                       then item\<lparr>quantity := js_add (quantity item) (Finite 1)\<rparr>
                       else item) items
      | None \<Rightarrow>
          items @ [\<lparr>productId = product_id product, name = product_name product,
                     price = priceNum product, quantity = Finite 1\<rparr>])"

text \<open>
  \<open>items.reduce((acc, item) => acc + item.quantity, 0)\<close>: the quantities are added
  from left to right, each sum rounded to a double.
\<close>

definition total_quantity :: "CartItem list \<Rightarrow> jsnumber" where
  "total_quantity items = foldl (\<lambda>acc item. js_add acc (quantity item)) (Finite 0) items"

text \<open>
  The body of the request, \<open>JSON.stringify({userId: user.uid, items: updatedCartItems})\<close>,
  as the JSON value that the text denotes. \<open>JSON.stringify\<close> writes a finite number as
  a number and any other number as \<open>null\<close>.
\<close>

datatype json =
    JNull
  | JNumber int
  | JString string
  | JArray "json list"
  | JObject "(string \<times> json) list"

definition json_of_number :: "jsnumber \<Rightarrow> json" where
  "json_of_number x = (case x of Finite i \<Rightarrow> JNumber i | _ \<Rightarrow> JNull)"

definition json_of_item :: "CartItem \<Rightarrow> json" where
  "json_of_item item =
     JObject [(''productId'', JString (productId item)), (''name'', JString (name item)),
              (''price'', json_of_number (price item)),
              (''quantity'', json_of_number (quantity item))]"

definition cart_body :: "string \<Rightarrow> CartItem list \<Rightarrow> json" where
  "cart_body userId items =
     JObject [(''userId'', JString userId), (''items'', JArray (map json_of_item items))]"

text \<open>
  The collection of cart items that a body holds, for the words "the body contains
  exactly that collection": the members of \<open>items\<close> read back as cart items, if each of
  them has the two strings and the two numbers of a cart item.
\<close>

definition item_of_json :: "json \<Rightarrow> CartItem option" where
  "item_of_json j =
     (case j of
        JObject members \<Rightarrow>
          (case (map_of members ''productId'', map_of members ''name'') of
             (Some (JString i), Some (JString n)) \<Rightarrow>
               (case (map_of members ''price'', map_of members ''quantity'') of
                  (Some (JNumber p), Some (JNumber q)) \<Rightarrow>
                    Some \<lparr>productId = i, name = n, price = Finite p, quantity = Finite q\<rparr>
                | _ \<Rightarrow> None)
           | _ \<Rightarrow> None)
      | _ \<Rightarrow> None)"

definition items_of_body :: "json \<Rightarrow> CartItem list option" where
  "items_of_body body =
     (case body of
        JObject members \<Rightarrow>
          (case map_of members ''items'' of
             Some (JArray js) \<Rightarrow> those (map item_of_json js)
           | _ \<Rightarrow> None)
      | _ \<Rightarrow> None)"

text \<open>
  What \<open>handleAddToCart\<close> does to the outside, in the order in which it does it, and
  how the awaited \<open>fetch\<close> can end: a response with \<open>res.ok\<close>, a response without,
  or a rejected promise. \<open>FetchPost\<close> has the address and the body of the request. The
  two toasts close by themselves after \<open>autoClose\<close> milliseconds.
\<close>

datatype effect =
    RouterPush string
  | SetCartItems "CartItem list"
  | SetCartCount jsnumber
  | FetchPost string json
  | ToastSuccess string nat
  | ToastError string nat
  | ConsoleError string

datatype fetch_outcome = ResponseOk | ResponseNotOk | FetchRejected

definition is_network_call :: "effect \<Rightarrow> bool" where
  "is_network_call e = (case e of FetchPost url body \<Rightarrow> True | _ \<Rightarrow> False)"

definition is_state_update :: "effect \<Rightarrow> bool" where
  "is_state_update e =
     (case e of SetCartItems items \<Rightarrow> True | SetCartCount n \<Rightarrow> True | _ \<Rightarrow> False)"

definition handleAddToCart ::
    "Home_state \<Rightarrow> Product \<Rightarrow> fetch_outcome \<Rightarrow> Home_state \<times> effect list" where
  "handleAddToCart s product outcome =
     (let updated = updatedCartItems (cartItems s) product in
      case user s of
        None \<Rightarrow> (s, [RouterPush ''/signin''])
      | Some u \<Rightarrow>
          let newCartCount = total_quantity updated;
              s' = s\<lparr>cartItems := updated, cartCount := newCartCount\<rparr>;
              dispatched = [SetCartItems updated, SetCartCount newCartCount,
                            FetchPost ''/api/cart'' (cart_body (uid u) updated)]
          in case outcome of
               ResponseOk \<Rightarrow> (s', dispatched @ [ToastSuccess ''Item added to Cart'' 3000])
             | _ \<Rightarrow>
                 (s', dispatched @
                    [ConsoleError ''Error updating the cart:'',
                     ToastError ''Error updating your cart. Please try again.'' 3000]))"

section \<open>Concrete inputs\<close>

text \<open>
  A lower-casing of the ASCII letters and a comparison by code units, to run the
  functions above on concrete inputs, and the catalog of the specification's scenarios.
\<close>

definition ascii_toLowerCase :: "string \<Rightarrow> string" where
  "ascii_toLowerCase s =
     map (\<lambda>c. case map_of (zip ''ABCDEFGHIJKLMNOPQRSTUVWXYZ''
                                     ''abcdefghijklmnopqrstuvwxyz'') c of
                 Some l \<Rightarrow> l
               | None \<Rightarrow> c) s"

fun code_unit_compare :: "string \<Rightarrow> string \<Rightarrow> int" where
  "code_unit_compare [] [] = 0"
| "code_unit_compare [] (y # ys) = - 1"
| "code_unit_compare (x # xs) [] = 1"
| "code_unit_compare (x # xs) (y # ys) =
     (if (of_char x :: nat) < of_char y then - 1
      else if (of_char y :: nat) < of_char x then 1
      else code_unit_compare xs ys)"

definition example_p1 :: Product where
  "example_p1 =
     \<lparr>product_id = ''p1'', product_name = ''Phulkari Dupatta'', product_price = ''Rs 1500'',
      product_desc = None, product_colors = None, product_sizes = None,
      product_justIn = Some True, product_defaultImage_url = ''/p1.jpg''\<rparr>"

definition example_p2 :: Product where
  "example_p2 =
     \<lparr>product_id = ''p2'', product_name = ''Phulkari Scarf'', product_price = ''Rs 800'',
      product_desc = None, product_colors = None, product_sizes = None,
      product_justIn = Some False, product_defaultImage_url = ''/p2.jpg''\<rparr>"

definition example_p3 :: Product where
  "example_p3 =
     \<lparr>product_id = ''p3'', product_name = ''Bagh Shawl'', product_price = ''Rs 2,200'',
      product_desc = None, product_colors = None, product_sizes = None,
      product_justIn = None, product_defaultImage_url = ''/p3.jpg''\<rparr>"

definition example_p4 :: Product where
  "example_p4 =
     \<lparr>product_id = ''p4'', product_name = ''Bagh Dupatta'',
      product_price = ''Rs '' @ replicate 309 (CHR ''9''),
      product_desc = None, product_colors = None, product_sizes = None,
      product_justIn = None, product_defaultImage_url = ''/p4.jpg''\<rparr>"

definition example_user :: User where
  "example_user = \<lparr>uid = ''u1'', displayName = None, email = None\<rparr>"

definition example_item :: CartItem where
  "example_item =
     \<lparr>productId = ''p1'', name = ''Phulkari Dupatta'', price = Finite 1500,
      quantity = Finite 1\<rparr>"

text \<open>A signed-in shopper whose cart holds one \<open>p1\<close>.\<close>

definition signed_in_state :: Home_state where
  "signed_in_state =
     initial_state\<lparr>user := Some example_user, authLoading := False,
                   cartItems := [example_item], cartCount := Finite 1\<rparr>"

text \<open>
  The same shopper with \<open>2 ^ 53\<close> of \<open>p1\<close> in the cart, as \<open>GET /api/cart\<close> can
  return it.
\<close>

definition full_cart_state :: Home_state where
  "full_cart_state =
     signed_in_state\<lparr>cartItems := [example_item\<lparr>quantity := Finite 9007199254740992\<rparr>],
                     cartCount := Finite 9007199254740992\<rparr>"

section \<open>Properties of price parsing\<close>

lemma bit_length_bound: "n < 2 ^ k \<Longrightarrow> bit_length n \<le> k"
proof (induction k arbitrary: n)
  case 0
  then show ?case by (simp add: bit_length.simps)
next
  case (Suc k)
  show ?case
  proof (cases "n = 0")
    case True
    then show ?thesis by (simp add: bit_length.simps)
  next
    case False
    from Suc.prems have "n div 2 < 2 ^ k" by simp
    then have "bit_length (n div 2) \<le> k" by (rule Suc.IH)
    with False show ?thesis by (subst bit_length.simps) simp
  qed
qed

lemma round_to_double_small: "n < 2 ^ 53 \<Longrightarrow> round_to_double n = Finite (int n)"
  using bit_length_bound [of n 53] by (simp add: round_to_double_def Let_def)

lemma bit_length_2_53: "bit_length 9007199254740992 = 54"
  by (simp add: bit_length.simps)

lemma round_to_double_2_53: "round_to_double 9007199254740992 = Finite 9007199254740992"
  by (simp add: round_to_double_def Let_def bit_length_2_53)

lemma round_to_double_exact: "n \<le> 2 ^ 53 \<Longrightarrow> round_to_double n = Finite (int n)"
proof (cases "n = 2 ^ 53")
  case True
  then show ?thesis by (simp add: round_to_double_2_53)
next
  case False
  assume "n \<le> 2 ^ 53"
  with False have "n < 2 ^ 53" by simp
  then show ?thesis by (rule round_to_double_small)
qed

lemma round_to_double_non_negative: "is_non_negative (round_to_double n)"
  by (simp add: round_to_double_def Let_def is_non_negative_def)

lemma decimal_value_snoc:
  "decimal_value (ds @ [c]) = 10 * decimal_value ds + digit_value c"
  by (simp add: decimal_value_def)

lemma digit_value_le_9: "is_digit c \<Longrightarrow> digit_value c \<le> 9"
  by (auto simp: is_digit_def digit_value_def)

lemma decimal_value_less: "\<forall>c\<in>set ds. is_digit c \<Longrightarrow> decimal_value ds < 10 ^ length ds"
proof (induction ds rule: rev_induct)
  case Nil
  show ?case by (simp add: decimal_value_def)
next
  case (snoc c ds)
  then have "decimal_value ds < 10 ^ length ds" and "digit_value c \<le> 9"
    by (simp_all add: digit_value_le_9)
  then have "10 * decimal_value ds + digit_value c < 10 * 10 ^ length ds"
    by linarith
  then show ?case by (simp add: decimal_value_snoc)
qed

lemma strip_non_digits_digits: "\<forall>c\<in>set (strip_non_digits s). is_digit c"
  by (simp add: strip_non_digits_def)

lemma strip_non_digits_empty: "\<forall>c\<in>set s. \<not> is_digit c \<Longrightarrow> strip_non_digits s = []"
  by (simp add: strip_non_digits_def)

lemma fifteen_digits_exact:
  assumes "length (strip_non_digits s) \<le> 15"
  shows "decimal_value (strip_non_digits s) \<le> 2 ^ 53"
proof -
  have "decimal_value (strip_non_digits s) < 10 ^ length (strip_non_digits s)"
    by (rule decimal_value_less [OF strip_non_digits_digits])
  also from assms have "(10::nat) ^ length (strip_non_digits s) \<le> 10 ^ 15"
    by (intro power_increasing) simp_all
  also have "(10::nat) ^ 15 \<le> 2 ^ 53" by simp
  finally show ?thesis by simp
qed

lemma less_two_power_bit_length: "n < 2 ^ bit_length n"
proof (induction n rule: bit_length.induct)
  case (1 n)
  show ?case
  proof (cases "n = 0")
    case True
    then show ?thesis by simp
  next
    case False
    with 1 have "n div 2 < 2 ^ bit_length (n div 2)" by simp
    then have "n < 2 * 2 ^ bit_length (n div 2)" by linarith
    with False show ?thesis by (subst bit_length.simps) simp
  qed
qed

lemma two_power_bit_length_le: "n \<noteq> 0 \<Longrightarrow> 2 ^ (bit_length n - 1) \<le> n"
proof (induction n rule: bit_length.induct)
  case (1 n)
  show ?case
  proof (cases "n div 2 = 0")
    case True
    with 1(2) have "n = 1" by (simp add: div_eq_0_iff) 
    then show ?thesis by (simp add: bit_length.simps)
  next
    case False
    with 1 have "2 ^ (bit_length (n div 2) - 1) \<le> n div 2" by simp
    then have "2 * 2 ^ (bit_length (n div 2) - 1) \<le> n" by linarith
    moreover from False have "bit_length (n div 2) \<noteq> 0"
      by (subst bit_length.simps) simp
    then have "2 * (2::nat) ^ (bit_length (n div 2) - 1) = 2 ^ bit_length (n div 2)"
      by (cases "bit_length (n div 2)") simp_all
    ultimately show ?thesis using 1(2) by (subst bit_length.simps) simp
  qed
qed

lemma round_to_double_overflow:
  assumes "2 ^ 1024 \<le> n"
  shows "round_to_double n = PosInfinity"
proof -
  let ?L = "bit_length n"
  let ?e = "?L - 53"
  from assms have n0: "n \<noteq> 0" by auto
  have "(2::nat) ^ 1024 < 2 ^ ?L"
    using assms less_two_power_bit_length [of n] by (rule le_less_trans)
  then have L: "1024 < ?L" by (simp only: power_strict_increasing_iff [of 2] one_less_numeral_iff semiring_norm)
  then have split: "?L - 1 = 52 + ?e" by simp
  have "(2::nat) ^ (52 + ?e) \<le> n"
    using two_power_bit_length_le [OF n0] by (simp only: split)
  then have "2 ^ 52 * 2 ^ ?e \<le> n" by (simp only: power_add)
  then have "2 ^ 52 \<le> n div 2 ^ ?e"
    by (simp add: less_eq_div_iff_mult_less_eq)
  then have "2 ^ 52 * 2 ^ ?e \<le> (n div 2 ^ ?e) * 2 ^ ?e" by (rule mult_le_mono1)
  then have q: "2 ^ (?L - 1) \<le> (n div 2 ^ ?e) * 2 ^ ?e"
    by (simp only: split power_add)
  from L have big: "(2::nat) ^ 1024 \<le> 2 ^ (?L - 1)"
    by (intro power_increasing) simp_all
  from big q have v: "2 ^ 1024 \<le> (n div 2 ^ ?e) * 2 ^ ?e" by (rule le_trans)
  then have v': "2 ^ 1024 \<le> (n div 2 ^ ?e + 1) * 2 ^ ?e"
    by (simp only: add_mult_distrib trans_le_add1)
  from L have "\<not> ?L \<le> 53" by simp
  with v v' show ?thesis
    unfolding round_to_double_def Let_def by (simp only: if_False if_True split: if_splits) auto
qed

lemma decimal_value_nines: "decimal_value (replicate k (CHR ''9'')) = 10 ^ k - 1"
proof (induction k)
  case 0
  show ?case by (simp add: decimal_value_def)
next
  case (Suc k)
  have "(1::nat) \<le> 10 ^ k" by simp
  then obtain m where m: "(10::nat) ^ k = Suc m" by (cases "(10::nat) ^ k") simp_all
  have step: "10 * (10 ^ k - 1) + 9 = (10::nat) ^ Suc k - 1" by (simp add: m)
  have "replicate (Suc k) (CHR ''9'') = replicate k (CHR ''9'') @ [CHR ''9'']"
    by (simp add: replicate_append_same)
  then have "decimal_value (replicate (Suc k) (CHR ''9'')) =
      10 * decimal_value (replicate k (CHR ''9'')) + digit_value (CHR ''9'')"
    by (simp only: decimal_value_snoc)
  also have "\<dots> = 10 * (10 ^ k - 1) + 9"
    by (simp add: Suc digit_value_def)
  finally show ?case by (simp only: step)
qed

lemma strip_non_digits_nines:
  "strip_non_digits (''Rs '' @ replicate k (CHR ''9'')) = replicate k (CHR ''9'')"
  by (simp add: strip_non_digits_def is_digit_def)

lemma parse_price_nines:
  "parse_price (''Rs '' @ replicate 309 (CHR ''9'')) = PosInfinity"
proof -
  have "(2::nat) ^ 1024 \<le> 10 ^ 309 - 1" by simp
  then show ?thesis
    by (simp only: parse_price_def Number_of_digits_def strip_non_digits_nines
        decimal_value_nines round_to_double_overflow)
qed

text \<open>
  Below \<open>2 ^ 1024 - 2 ^ 970\<close>, the midpoint of the greatest double and \<open>2 ^ 1024\<close>,
  rounding does not overflow.
\<close>

lemma round_to_double_finite:
  assumes n: "n < 2 ^ 1024 - 2 ^ 970"
  shows "is_integer (round_to_double n)"
proof (cases "bit_length n \<le> 53")
  case True
  then show ?thesis by (simp add: round_to_double_def Let_def is_integer_def)
next
  case False
  define e where "e = bit_length n - 53"
  define q where "q = n div 2 ^ e"
  define r where "r = n mod 2 ^ e"
  define q' where "q' = (if 2 ^ (e - 1) < r \<or> (r = 2 ^ (e - 1) \<and> odd q) then q + 1 else q)"
  from n have "n < 2 ^ 1024" by simp
  then have "bit_length n \<le> 1024" by (rule bit_length_bound)
  with False have e: "e \<le> 971" by (simp add: e_def)
  from False have "bit_length n = 53 + e" by (simp add: e_def)
  with less_two_power_bit_length [of n] have "n < 2 ^ 53 * 2 ^ e"
    by (simp add: power_add)
  then have q: "q < 2 ^ 53" unfolding q_def by (rule less_mult_imp_div_less)
  have q'_le: "q' \<le> q + 1" by (simp add: q'_def)
  have small: "q' * 2 ^ e < 2 ^ 1024"
  proof (cases "e \<le> 970")
    case True
    from q'_le q have "q' \<le> 2 ^ 53" by simp
    then have "q' * 2 ^ e \<le> 2 ^ 53 * 2 ^ e" by (rule mult_le_mono1)
    also from True have "(2::nat) ^ 53 * 2 ^ e \<le> 2 ^ 53 * 2 ^ 970"
      by (intro mult_le_mono2 power_increasing) simp_all
    also have "(2::nat) ^ 53 * 2 ^ 970 < 2 ^ 1024" by simp
    finally show ?thesis .
  next
    case False
    with e have e971: "e = 971" by simp
    have "q' \<le> 2 ^ 53 - 1"
    proof (cases "q = 2 ^ 53 - 1")
      case True
      have "n = q * 2 ^ e + r"
        unfolding q_def r_def by (rule div_mult_mod_eq [symmetric])
      with n True e971 have "r < 2 ^ 970" by simp
      with True e971 show ?thesis by (simp add: q'_def)
    next
      case False
      with q q'_le show ?thesis by simp
    qed
    then have "q' * 2 ^ e \<le> (2 ^ 53 - 1) * 2 ^ e" by (rule mult_le_mono1)
    also from e971 have "((2::nat) ^ 53 - 1) * 2 ^ e < 2 ^ 1024" by simp
    finally show ?thesis .
  qed
  have "round_to_double n = (if 2 ^ 1024 \<le> q' * 2 ^ e then PosInfinity else Finite (int (q' * 2 ^ e)))"
    using False unfolding round_to_double_def Let_def e_def q_def r_def q'_def by simp
  with small show ?thesis by (simp add: is_integer_def)
qed

lemma three_hundred_eight_digits_finite:
  assumes "length (strip_non_digits s) \<le> 308"
  shows "decimal_value (strip_non_digits s) < 2 ^ 1024 - 2 ^ 970"
proof -
  have "decimal_value (strip_non_digits s) < 10 ^ length (strip_non_digits s)"
    by (rule decimal_value_less [OF strip_non_digits_digits])
  also from assms have "(10::nat) ^ length (strip_non_digits s) \<le> 10 ^ 308"
    by (intro power_increasing) simp_all
  also have "(10::nat) ^ 308 \<le> 2 ^ 1024 - 2 ^ 970" by simp
  finally show ?thesis .
qed

text \<open>
  C7, as the code has it. The string of the digit characters of \<open>s\<close>, in order, is
  \<open>strip_non_digits s\<close>, and the integer it denotes is its \<open>decimal_value\<close>.
  Price parsing never yields a negative number. It yields an integer whenever the
  integer written is below \<open>2 ^ 1024 - 2 ^ 970\<close>, where rounding to a double starts to
  overflow, in particular whenever \<open>s\<close> has at most 308 digit characters. It yields
  exactly the integer written whenever that is at most \<open>2 ^ 53\<close>, in particular
  whenever \<open>s\<close> has at most 15 digit characters (so \<open>Rs 1,000\<close> parses to 1000);
  beyond \<open>2 ^ 53\<close> the result is the nearest double.
\<close>

theorem parse_price_exact_up_to_2_53:
  "is_non_negative (parse_price s) \<and>
   (decimal_value (strip_non_digits s) < 2 ^ 1024 - 2 ^ 970 \<longrightarrow>
      is_integer (parse_price s)) \<and>
   (length (strip_non_digits s) \<le> 308 \<longrightarrow> is_integer (parse_price s)) \<and>
   (decimal_value (strip_non_digits s) \<le> 2 ^ 53 \<longrightarrow>
      parse_price s = Finite (int (decimal_value (strip_non_digits s)))) \<and>
   (length (strip_non_digits s) \<le> 15 \<longrightarrow>
      parse_price s = Finite (int (decimal_value (strip_non_digits s))))"
proof (intro conjI impI)
  show "is_non_negative (parse_price s)"
    by (simp add: parse_price_def Number_of_digits_def round_to_double_non_negative)
  show "is_integer (parse_price s)"
    if "decimal_value (strip_non_digits s) < 2 ^ 1024 - 2 ^ 970"
    using that unfolding parse_price_def Number_of_digits_def
    by (rule round_to_double_finite)
  show "is_integer (parse_price s)" if "length (strip_non_digits s) \<le> 308"
    unfolding parse_price_def Number_of_digits_def
    by (rule round_to_double_finite [OF three_hundred_eight_digits_finite [OF that]])
  show "parse_price s = Finite (int (decimal_value (strip_non_digits s)))"
    if "decimal_value (strip_non_digits s) \<le> 2 ^ 53"
    using that by (simp add: parse_price_def Number_of_digits_def round_to_double_exact)
  show "parse_price s = Finite (int (decimal_value (strip_non_digits s)))"
    if "length (strip_non_digits s) \<le> 15"
    using fifteen_digits_exact [OF that]
    by (simp add: parse_price_def Number_of_digits_def round_to_double_exact)
qed

theorem parse_price_exact_up_to_2_53_witness:
  "is_non_negative (parse_price ''Rs 1,000'') \<and>
   is_integer (parse_price ''Rs 1,000'') \<and>
   decimal_value (strip_non_digits ''Rs 1,000'') = 1000 \<and>
   length (strip_non_digits ''Rs 1,000'') = 4 \<and>
   parse_price ''Rs 1,000'' = Finite 1000"
proof -
  have d: "decimal_value (strip_non_digits ''Rs 1,000'') = 1000"
    by (simp add: strip_non_digits_def is_digit_def decimal_value_def digit_value_def)
  have l: "length (strip_non_digits ''Rs 1,000'') = 4"
    by (simp add: strip_non_digits_def is_digit_def)
  from parse_price_exact_up_to_2_53 [of "''Rs 1,000''"] d l show ?thesis
    by (simp add: is_non_negative_def is_integer_def)
qed

text \<open>
  C7, as the claim states it, fails on a price with 16 digits: \<open>2 ^ 53 + 1\<close> is not a
  double, and \<open>Number\<close> rounds it to \<open>2 ^ 53\<close>. On a price with 309 digits 9 the
  result is \<open>+Infinity\<close>, which is no integer.
\<close>

theorem parse_price_inexact_counterexample:
  "decimal_value (strip_non_digits ''Rs 9007199254740993'') = 9007199254740993 \<and>
   parse_price ''Rs 9007199254740993'' = Finite 9007199254740992 \<and>
   parse_price ''Rs 9007199254740993''
     \<noteq> Finite (int (decimal_value (strip_non_digits ''Rs 9007199254740993''))) \<and>
   parse_price (''Rs '' @ replicate 309 (CHR ''9'')) = PosInfinity \<and>
   \<not> is_integer (parse_price (''Rs '' @ replicate 309 (CHR ''9'')))"
proof -
  have d: "decimal_value (strip_non_digits ''Rs 9007199254740993'') = 9007199254740993"
    by (simp add: strip_non_digits_def is_digit_def decimal_value_def digit_value_def)
  have b: "bit_length 9007199254740993 = 54"
    by (simp add: bit_length.simps)
  have r: "round_to_double 9007199254740993 = Finite 9007199254740992"
    by (simp add: round_to_double_def Let_def b)
  have p: "parse_price ''Rs 9007199254740993'' = Finite 9007199254740992"
    by (simp only: parse_price_def Number_of_digits_def d r)
  show ?thesis
    by (simp only: p d parse_price_nines) (simp add: is_integer_def)
qed

text \<open>
  C10. On a price string without any digit character, price parsing returns exactly 0.
  \<open>parse_price\<close> is a total function (neither \<open>replace\<close> nor \<open>Number\<close> throws on a
  string), and 0 is a non-negative integer.
\<close>

theorem parse_price_no_digits:
  "\<forall>c\<in>set s. \<not> is_digit c \<Longrightarrow>
     parse_price s = Finite 0 \<and> is_non_negative (parse_price s) \<and> is_integer (parse_price s)"
  using round_to_double_exact [of 0]
  by (simp add: parse_price_def Number_of_digits_def strip_non_digits_empty decimal_value_def
      is_non_negative_def is_integer_def)

theorem parse_price_no_digits_witness:
  "list_all (\<lambda>c. \<not> is_digit c) ''Rs '' \<and> parse_price ''Rs '' = Finite 0 \<and>
   parse_price [] = Finite 0"
  using parse_price_no_digits [of "''Rs ''"] parse_price_no_digits [of "[]"]
  by (simp add: is_digit_def)

lemma parse_price_small:
  "decimal_value (strip_non_digits s) \<le> 2 ^ 53 \<Longrightarrow>
     parse_price s = Finite (int (decimal_value (strip_non_digits s)))"
  by (simp add: parse_price_def Number_of_digits_def round_to_double_exact)

lemma priceNum_example_p1: "priceNum example_p1 = Finite 1500"
proof -
  have "decimal_value (strip_non_digits ''Rs 1500'') = 1500"
    by (simp add: strip_non_digits_def is_digit_def decimal_value_def digit_value_def)
  then show ?thesis
    using parse_price_small [of "''Rs 1500''"] by (simp add: priceNum_def example_p1_def)
qed

lemma priceNum_example_p2: "priceNum example_p2 = Finite 800"
proof -
  have "decimal_value (strip_non_digits ''Rs 800'') = 800"
    by (simp add: strip_non_digits_def is_digit_def decimal_value_def digit_value_def)
  then show ?thesis
    using parse_price_small [of "''Rs 800''"] by (simp add: priceNum_def example_p2_def)
qed

section \<open>Properties of the addition\<close>

lemma round_integer_exact:
  "- (2 ^ 53) \<le> i \<Longrightarrow> i \<le> 2 ^ 53 \<Longrightarrow> round_integer i = Finite i"
  using round_to_double_exact [of "nat i"] round_to_double_exact [of "nat (- i)"]
  by (auto simp: round_integer_def negate_def nat_le_iff)

lemma js_add_exact:
  "- (2 ^ 53) \<le> a + b \<Longrightarrow> a + b \<le> 2 ^ 53 \<Longrightarrow> js_add (Finite a) (Finite b) = Finite (a + b)"
  by (simp add: round_integer_exact)

lemma round_to_double_2_53_plus_1:
  "round_to_double 9007199254740993 = Finite 9007199254740992"
proof -
  have "bit_length 9007199254740993 = 54"
    by (simp add: bit_length.simps)
  then show ?thesis by (simp add: round_to_double_def Let_def)
qed

lemma round_integer_2_53_plus_1:
  "round_integer 9007199254740993 = Finite 9007199254740992"
proof -
  have "round_integer 9007199254740993 = round_to_double 9007199254740993"
    unfolding round_integer_def by simp
  then show ?thesis by (simp only: round_to_double_2_53_plus_1)
qed

lemma js_add_2_53: "js_add (Finite 9007199254740992) (Finite 1) = Finite 9007199254740992"
  by (simp add: round_integer_2_53_plus_1)

section \<open>Properties of the cart\<close>

lemma find_productId_None:
  "(find (\<lambda>item. productId item = pid) items = None) = (pid \<notin> productId ` set items)"
  by (auto simp: find_None_iff)

lemma updatedCartItems_present:
  "product_id p \<in> productId ` set items \<Longrightarrow>
     updatedCartItems items p =
       map (\<lambda>item. if productId item = product_id p
                    then item\<lparr>quantity := js_add (quantity item) (Finite 1)\<rparr>
                    else item) items"
  using find_productId_None [of "product_id p" items]
  by (auto simp: updatedCartItems_def split: option.splits)

lemma updatedCartItems_absent:
  "product_id p \<notin> productId ` set items \<Longrightarrow>
     updatedCartItems items p =
       items @ [\<lparr>productId = product_id p, name = product_name p,
                  price = priceNum p, quantity = Finite 1\<rparr>]"
  using find_productId_None [of "product_id p" items]
  by (simp add: updatedCartItems_def)

lemma productId_increment:
  "map productId
     (map (\<lambda>item. if productId item = pid
                  then item\<lparr>quantity := js_add (quantity item) (Finite 1)\<rparr>
                  else item) items) =
   map productId items"
  by (induction items) auto

lemma unique_index:
  assumes "distinct (map productId items)" and "pid \<in> productId ` set items"
  shows "\<exists>!i. i < length items \<and> productId (items ! i) = pid"
proof -
  from assms(2) obtain i where i: "i < length items" "productId (items ! i) = pid"
    by (auto simp: in_set_conv_nth)
  have "j = i" if "j < length items" "productId (items ! j) = pid" for j
    using assms(1) i that by (auto simp: distinct_conv_nth)
  with i show ?thesis by blast
qed

lemma updatedCartItems_twice:
  "updatedCartItems (updatedCartItems [] p) p =
     [\<lparr>productId = product_id p, name = product_name p, price = priceNum p,
       quantity = Finite 2\<rparr>]"
  using js_add_exact [of 1 1] by (simp add: updatedCartItems_def)

lemma updatedCartItems_example:
  "updatedCartItems [example_item] example_p1 = [example_item\<lparr>quantity := Finite 2\<rparr>]"
  using js_add_exact [of 1 1]
  by (simp add: updatedCartItems_def example_item_def example_p1_def)

lemma updatedCartItems_full_cart:
  "updatedCartItems (cartItems full_cart_state) example_p1 = cartItems full_cart_state"
  by (simp add: updatedCartItems_def full_cart_state_def example_item_def example_p1_def
      round_integer_2_53_plus_1)

lemma cartItems_handleAddToCart:
  "cartItems (fst (handleAddToCart s p outcome)) =
     (case user s of None \<Rightarrow> cartItems s | Some u \<Rightarrow> updatedCartItems (cartItems s) p)"
  by (cases outcome) (simp_all add: handleAddToCart_def Let_def split: option.splits)

lemma user_handleAddToCart: "user (fst (handleAddToCart s p outcome)) = user s"
  by (cases outcome) (simp_all add: handleAddToCart_def Let_def split: option.splits)

text \<open>The sum of counts, from left to right, is exact as long as it stays within \<open>2 ^ 53\<close>.\<close>

lemma sum_counts_nonneg:
  "list_all (\<lambda>item. is_count (quantity item)) items \<Longrightarrow>
     0 \<le> (\<Sum>item\<leftarrow>items. finite_value (quantity item))"
  by (induction items) (auto simp: is_count_def finite_value_def split: jsnumber.splits)

lemma foldl_js_add_exact:
  "list_all (\<lambda>item. is_count (quantity item)) items \<Longrightarrow> 0 \<le> a \<Longrightarrow>
   a + (\<Sum>item\<leftarrow>items. finite_value (quantity item)) \<le> 2 ^ 53 \<Longrightarrow>
     foldl (\<lambda>acc item. js_add acc (quantity item)) (Finite a) items =
       Finite (a + (\<Sum>item\<leftarrow>items. finite_value (quantity item)))"
proof (induction items arbitrary: a)
  case Nil
  then show ?case by simp
next
  case (Cons x xs)
  from Cons.prems(1) obtain q where q: "quantity x = Finite q" "0 \<le> q"
    by (auto simp: is_count_def split: jsnumber.splits)
  from Cons.prems(1) have rest: "list_all (\<lambda>item. is_count (quantity item)) xs" by simp
  then have nonneg: "0 \<le> (\<Sum>item\<leftarrow>xs. finite_value (quantity item))"
    by (rule sum_counts_nonneg)
  from Cons.prems(3) q have total: "a + q + (\<Sum>item\<leftarrow>xs. finite_value (quantity item)) \<le> 2 ^ 53"
    by (simp add: finite_value_def)
  with nonneg Cons.prems(2) q have step: "js_add (Finite a) (Finite q) = Finite (a + q)"
    by (intro js_add_exact) simp_all
  from Cons.prems(2) q have "0 \<le> a + q" by simp
  with rest total
  have "foldl (\<lambda>acc item. js_add acc (quantity item)) (Finite (a + q)) xs =
          Finite (a + q + (\<Sum>item\<leftarrow>xs. finite_value (quantity item)))"
    by (intro Cons.IH)
  with q step show ?case by (simp add: finite_value_def)
qed

lemma total_quantity_exact:
  "list_all (\<lambda>item. is_count (quantity item)) items \<Longrightarrow>
   (\<Sum>item\<leftarrow>items. finite_value (quantity item)) \<le> 2 ^ 53 \<Longrightarrow>
     total_quantity items = Finite (\<Sum>item\<leftarrow>items. finite_value (quantity item))"
  using foldl_js_add_exact [of items 0] by (simp add: total_quantity_def)

text \<open>A cart item with a finite price and a finite quantity is read back from its JSON.\<close>

lemma item_of_json_of_item:
  "is_integer (price item) \<Longrightarrow> is_integer (quantity item) \<Longrightarrow>
     item_of_json (json_of_item item) = Some item"
  by (cases "price item"; cases "quantity item")
    (simp_all add: is_integer_def item_of_json_def json_of_item_def json_of_number_def)

lemma those_items:
  "list_all (\<lambda>item. is_integer (price item) \<and> is_integer (quantity item)) items \<Longrightarrow>
     those (map (item_of_json \<circ> json_of_item) items) = Some items"
  by (induction items) (simp_all add: item_of_json_of_item)

lemma items_of_cart_body:
  "list_all (\<lambda>item. is_integer (price item) \<and> is_integer (quantity item)) items \<Longrightarrow>
     items_of_body (cart_body userId items) = Some items"
  by (simp add: items_of_body_def cart_body_def those_items)

text \<open>
  C1, as the code has it. In a cart with at most one item per product identifier,
  adding a product keeps that invariant, for the merged items and for the items of the
  state that \<open>handleAddToCart\<close> leaves. If the identifier occurs in the cart, the cart
  keeps its length, the identifier occurs at exactly one index, and the item there gets
  the quantity \<open>quantity + 1\<close> of the addition of doubles while every other item is
  unchanged; that quantity is the old one raised by one whenever the old one is an
  integer \<open>q\<close> with \<open>- 2 ^ 53 \<le> q < 2 ^ 53\<close>. If the identifier does not occur,
  exactly one item with quantity one is appended. Adding the same product twice to the
  empty cart gives a single item with quantity 2, also through two calls of
  \<open>handleAddToCart\<close> by a signed-in user.
\<close>

theorem add_to_cart_one_item_per_product:
  "distinct (map productId items) \<Longrightarrow>
     distinct (map productId (updatedCartItems items p)) \<and>
     (product_id p \<in> productId ` set items \<longrightarrow>
        length (updatedCartItems items p) = length items \<and>
        (\<exists>!i. i < length items \<and> productId (items ! i) = product_id p) \<and>
        (\<forall>i<length items.
           updatedCartItems items p ! i =
             (if productId (items ! i) = product_id p
              then (items ! i)\<lparr>quantity := js_add (quantity (items ! i)) (Finite 1)\<rparr>
              else items ! i)) \<and>
        (\<forall>i<length items. \<forall>q.
           productId (items ! i) = product_id p \<and> quantity (items ! i) = Finite q \<and>
           - (2 ^ 53) \<le> q \<and> q < 2 ^ 53 \<longrightarrow>
           updatedCartItems items p ! i = (items ! i)\<lparr>quantity := Finite (q + 1)\<rparr>)) \<and>
     (product_id p \<notin> productId ` set items \<longrightarrow>
        updatedCartItems items p =
          items @ [\<lparr>productId = product_id p, name = product_name p,
                     price = priceNum p, quantity = Finite 1\<rparr>]) \<and>
     updatedCartItems (updatedCartItems [] p) p =
       [\<lparr>productId = product_id p, name = product_name p, price = priceNum p,
         quantity = Finite 2\<rparr>] \<and>
     (cartItems s = items \<longrightarrow>
        distinct (map productId (cartItems (fst (handleAddToCart s p outcome))))) \<and>
     (cartItems s = [] \<and> user s = Some u \<longrightarrow>
        cartItems (fst (handleAddToCart (fst (handleAddToCart s p outcome)) p outcome')) =
          [\<lparr>productId = product_id p, name = product_name p, price = priceNum p,
            quantity = Finite 2\<rparr>])"
proof (intro conjI impI)
  assume d: "distinct (map productId items)"
  have merged: "distinct (map productId (updatedCartItems items p))"
  proof (cases "product_id p \<in> productId ` set items")
    case True
    with d show ?thesis
      by (simp only: updatedCartItems_present productId_increment)
  next
    case False
    with d show ?thesis by (simp add: updatedCartItems_absent)
  qed
  show "distinct (map productId (cartItems (fst (handleAddToCart s p outcome))))"
    if "cartItems s = items"
    using that d merged by (auto simp: cartItems_handleAddToCart split: option.splits)
  show "cartItems (fst (handleAddToCart (fst (handleAddToCart s p outcome)) p outcome')) =
          [\<lparr>productId = product_id p, name = product_name p, price = priceNum p,
            quantity = Finite 2\<rparr>]"
    if "cartItems s = [] \<and> user s = Some u"
    using that
    by (simp add: cartItems_handleAddToCart user_handleAddToCart updatedCartItems_twice)
  show "distinct (map productId (updatedCartItems items p))"
    by (rule merged)
  show "updatedCartItems (updatedCartItems [] p) p =
       [\<lparr>productId = product_id p, name = product_name p, price = priceNum p,
         quantity = Finite 2\<rparr>]"
    by (rule updatedCartItems_twice)
  show "updatedCartItems items p =
          items @ [\<lparr>productId = product_id p, name = product_name p,
                     price = priceNum p, quantity = Finite 1\<rparr>]"
    if "product_id p \<notin> productId ` set items"
    using that by (rule updatedCartItems_absent)
  show "length (updatedCartItems items p) = length items"
    if "product_id p \<in> productId ` set items"
    using that by (simp add: updatedCartItems_present)
  show "\<exists>!i. i < length items \<and> productId (items ! i) = product_id p"
    if "product_id p \<in> productId ` set items"
    using d that by (rule unique_index)
  show "\<forall>i<length items.
           updatedCartItems items p ! i =
             (if productId (items ! i) = product_id p
              then (items ! i)\<lparr>quantity := js_add (quantity (items ! i)) (Finite 1)\<rparr>
              else items ! i)"
    if "product_id p \<in> productId ` set items"
    using that by (simp add: updatedCartItems_present)
  show "\<forall>i<length items. \<forall>q.
           productId (items ! i) = product_id p \<and> quantity (items ! i) = Finite q \<and>
           - (2 ^ 53) \<le> q \<and> q < 2 ^ 53 \<longrightarrow>
           updatedCartItems items p ! i = (items ! i)\<lparr>quantity := Finite (q + 1)\<rparr>"
    if "product_id p \<in> productId ` set items"
  proof (intro allI impI)
    fix i q
    assume i: "i < length items"
      and h: "productId (items ! i) = product_id p \<and> quantity (items ! i) = Finite q \<and>
              - (2 ^ 53) \<le> q \<and> q < 2 ^ 53"
    then have "js_add (Finite q) (Finite 1) = Finite (q + 1)"
      by (intro js_add_exact) simp_all
    with i h that show "updatedCartItems items p ! i = (items ! i)\<lparr>quantity := Finite (q + 1)\<rparr>"
      by (simp add: updatedCartItems_present)
  qed
qed

theorem add_to_cart_one_item_per_product_witness:
  "distinct (map productId [example_item]) \<and>
   updatedCartItems [example_item] example_p1 = [example_item\<lparr>quantity := Finite 2\<rparr>] \<and>
   updatedCartItems [example_item] example_p2 =
     [example_item,
      \<lparr>productId = ''p2'', name = ''Phulkari Scarf'', price = Finite 800,
        quantity = Finite 1\<rparr>] \<and>
   updatedCartItems (updatedCartItems [] example_p1) example_p1 =
     [\<lparr>productId = ''p1'', name = ''Phulkari Dupatta'', price = Finite 1500,
       quantity = Finite 2\<rparr>]"
proof -
  have d: "distinct (map productId [example_item])" by simp
  have "product_id example_p2 \<notin> productId ` set [example_item]"
    by (simp add: example_p2_def example_item_def)
  with add_to_cart_one_item_per_product [OF d, of example_p2 signed_in_state ResponseOk
      example_user ResponseOk]
    add_to_cart_one_item_per_product [OF d, of example_p1 signed_in_state ResponseOk
      example_user ResponseOk]
  show ?thesis
    by (simp add: updatedCartItems_example priceNum_example_p1 priceNum_example_p2)
      (simp add: example_p1_def example_p2_def)
qed

text \<open>
  C1, as the claim states it, fails on a quantity of \<open>2 ^ 53\<close>: the cart has one item
  per identifier, the identifier of the product occurs in it, and the quantity of the
  item is the same after the product has been added, because \<open>2 ^ 53 + 1\<close> is not a
  double.
\<close>

theorem add_to_cart_no_increment_counterexample:
  "distinct (map productId (cartItems full_cart_state)) \<and>
   product_id example_p1 \<in> productId ` set (cartItems full_cart_state) \<and>
   map quantity (cartItems full_cart_state) = [Finite 9007199254740992] \<and>
   map quantity (updatedCartItems (cartItems full_cart_state) example_p1) =
     [Finite 9007199254740992] \<and>
   map quantity (cartItems (fst (handleAddToCart full_cart_state example_p1 ResponseOk))) =
     [Finite 9007199254740992]"
proof -
  have u: "user full_cart_state = Some example_user"
    by (simp add: full_cart_state_def signed_in_state_def)
  have c: "cartItems full_cart_state = [example_item\<lparr>quantity := Finite 9007199254740992\<rparr>]"
    by (simp add: full_cart_state_def)
  have a: "cartItems (fst (handleAddToCart full_cart_state example_p1 ResponseOk)) =
      cartItems full_cart_state"
    by (simp add: cartItems_handleAddToCart u updatedCartItems_full_cart)
  have m: "product_id example_p1 \<in> productId ` set (cartItems full_cart_state)"
    by (simp add: c example_p1_def example_item_def)
  show ?thesis
    by (simp only: a updatedCartItems_full_cart m) (simp add: c)
qed

text \<open>
  C2. Without an identity, \<open>handleAddToCart\<close> leaves the state of the component as it
  is (the items and the count among it), performs no network call, and its only effect
  is the redirection to \<open>/signin\<close>, whatever the product and the cart.
\<close>

theorem unauthenticated_add_to_cart:
  "user s = None \<Longrightarrow>
     fst (handleAddToCart s p outcome) = s \<and>
     cartItems (fst (handleAddToCart s p outcome)) = cartItems s \<and>
     cartCount (fst (handleAddToCart s p outcome)) = cartCount s \<and>
     \<not> (\<exists>e\<in>set (snd (handleAddToCart s p outcome)). is_network_call e) \<and>
     snd (handleAddToCart s p outcome) = [RouterPush ''/signin'']"
  by (simp add: handleAddToCart_def is_network_call_def)

theorem unauthenticated_add_to_cart_witness:
  "user initial_state = None \<and>
   handleAddToCart initial_state (example_p1\<lparr>product_price := ''Rs 500''\<rparr>) ResponseOk
     = (initial_state, [RouterPush ''/signin''])"
  using unauthenticated_add_to_cart
    [of initial_state "example_p1\<lparr>product_price := ''Rs 500''\<rparr>" ResponseOk]
  by (simp add: initial_state_def prod_eq_iff)

text \<open>
  C3, as the code has it. With an identity, the effects of \<open>handleAddToCart\<close> start with
  the two state updates, to the merged items and to the count that \<open>reduce\<close> computes
  from their quantities by the addition of doubles, and the third effect is the POST to
  \<open>/api/cart\<close> whose body is the JSON of the identity and the merged items; no other
  network call and no other state update follows. The state of the component afterwards
  has the merged items and that count. The count is the sum of all item quantities
  whenever the quantities are integers that are not negative and their sum is at most
  \<open>2 ^ 53\<close>. The body holds exactly the merged items whenever the price and the
  quantity of each of them are finite.
\<close>

theorem optimistic_update_before_persist:
  "user s = Some u \<Longrightarrow>
     (\<exists>rest. snd (handleAddToCart s p outcome) =
        [SetCartItems (updatedCartItems (cartItems s) p),
         SetCartCount (total_quantity (updatedCartItems (cartItems s) p)),
         FetchPost ''/api/cart'' (cart_body (uid u) (updatedCartItems (cartItems s) p))]
          @ rest \<and>
        \<not> (\<exists>e\<in>set rest. is_network_call e \<or> is_state_update e)) \<and>
     fst (handleAddToCart s p outcome) =
       s\<lparr>cartItems := updatedCartItems (cartItems s) p,
         cartCount := total_quantity (updatedCartItems (cartItems s) p)\<rparr> \<and>
     (list_all (\<lambda>item. is_count (quantity item)) (updatedCartItems (cartItems s) p) \<and>
      (\<Sum>item\<leftarrow>updatedCartItems (cartItems s) p. finite_value (quantity item)) \<le> 2 ^ 53 \<longrightarrow>
        total_quantity (updatedCartItems (cartItems s) p) =
          Finite (\<Sum>item\<leftarrow>updatedCartItems (cartItems s) p. finite_value (quantity item))) \<and>
     (list_all (\<lambda>item. is_integer (price item) \<and> is_integer (quantity item))
        (updatedCartItems (cartItems s) p) \<longrightarrow>
        items_of_body (cart_body (uid u) (updatedCartItems (cartItems s) p)) =
          Some (updatedCartItems (cartItems s) p))"
proof (intro conjI impI)
  assume u: "user s = Some u"
  show "\<exists>rest. snd (handleAddToCart s p outcome) =
        [SetCartItems (updatedCartItems (cartItems s) p),
         SetCartCount (total_quantity (updatedCartItems (cartItems s) p)),
         FetchPost ''/api/cart'' (cart_body (uid u) (updatedCartItems (cartItems s) p))]
          @ rest \<and>
        \<not> (\<exists>e\<in>set rest. is_network_call e \<or> is_state_update e)"
    using u
    by (cases outcome)
      (simp_all add: handleAddToCart_def Let_def is_network_call_def is_state_update_def)
  show "fst (handleAddToCart s p outcome) =
       s\<lparr>cartItems := updatedCartItems (cartItems s) p,
         cartCount := total_quantity (updatedCartItems (cartItems s) p)\<rparr>"
    using u by (cases outcome) (simp_all add: handleAddToCart_def Let_def)
  show "total_quantity (updatedCartItems (cartItems s) p) =
          Finite (\<Sum>item\<leftarrow>updatedCartItems (cartItems s) p. finite_value (quantity item))"
    if "list_all (\<lambda>item. is_count (quantity item)) (updatedCartItems (cartItems s) p) \<and>
      (\<Sum>item\<leftarrow>updatedCartItems (cartItems s) p. finite_value (quantity item)) \<le> 2 ^ 53"
    using that by (intro total_quantity_exact) simp_all
  show "items_of_body (cart_body (uid u) (updatedCartItems (cartItems s) p)) =
          Some (updatedCartItems (cartItems s) p)"
    if "list_all (\<lambda>item. is_integer (price item) \<and> is_integer (quantity item))
        (updatedCartItems (cartItems s) p)"
    using that by (rule items_of_cart_body)
qed

theorem optimistic_update_before_persist_witness:
  "user signed_in_state = Some example_user \<and>
   cartItems signed_in_state = [example_item] \<and>
   snd (handleAddToCart signed_in_state example_p1 ResponseOk) =
     [SetCartItems [example_item\<lparr>quantity := Finite 2\<rparr>], SetCartCount (Finite 2),
      FetchPost ''/api/cart'' (cart_body ''u1'' [example_item\<lparr>quantity := Finite 2\<rparr>]),
      ToastSuccess ''Item added to Cart'' 3000] \<and>
   cartItems (fst (handleAddToCart signed_in_state example_p1 ResponseOk)) =
     [example_item\<lparr>quantity := Finite 2\<rparr>] \<and>
   cartCount (fst (handleAddToCart signed_in_state example_p1 ResponseOk)) = Finite 2 \<and>
   items_of_body (cart_body ''u1'' [example_item\<lparr>quantity := Finite 2\<rparr>]) =
     Some [example_item\<lparr>quantity := Finite 2\<rparr>]"
proof -
  have u: "user signed_in_state = Some example_user"
    by (simp add: signed_in_state_def)
  have c: "cartItems signed_in_state = [example_item]"
    by (simp add: signed_in_state_def)
  have n: "total_quantity [example_item\<lparr>quantity := Finite 2\<rparr>] = Finite 2"
    using js_add_exact [of 0 2] by (simp add: total_quantity_def)
  have i: "uid example_user = ''u1''"
    by (simp add: example_user_def)
  have f: "list_all (\<lambda>item. is_integer (price item) \<and> is_integer (quantity item))
             [example_item\<lparr>quantity := Finite 2\<rparr>]"
    by (simp add: is_integer_def example_item_def)
  have k: "list_all (\<lambda>item. is_count (quantity item)) [example_item\<lparr>quantity := Finite 2\<rparr>]"
    by (simp add: is_count_def)
  have t: "snd (handleAddToCart signed_in_state example_p1 ResponseOk) =
     [SetCartItems [example_item\<lparr>quantity := Finite 2\<rparr>], SetCartCount (Finite 2),
      FetchPost ''/api/cart'' (cart_body ''u1'' [example_item\<lparr>quantity := Finite 2\<rparr>]),
      ToastSuccess ''Item added to Cart'' 3000]"
    by (simp add: handleAddToCart_def Let_def u c updatedCartItems_example n i)
  from optimistic_update_before_persist [OF u, of example_p1 ResponseOk] u c t f k n i
  show ?thesis by (simp add: updatedCartItems_example finite_value_def)
qed

text \<open>
  C3, as the claim states it, fails in two ways. After the product with the price of
  309 digits has been added, the local items have the price \<open>+Infinity\<close> and the body
  of the POST has \<open>null\<close> in its place, so the body does not hold the merged items.
  After a second product has been added to the cart with \<open>2 ^ 53\<close> of \<open>p1\<close>, the
  quantities are \<open>2 ^ 53\<close> and 1 and the count is \<open>2 ^ 53\<close>, not their sum.
\<close>

theorem persist_body_and_count_counterexample:
  "cartItems (fst (handleAddToCart signed_in_state example_p4 ResponseOk)) =
     [example_item,
      \<lparr>productId = ''p4'', name = ''Bagh Dupatta'', price = PosInfinity,
        quantity = Finite 1\<rparr>] \<and>
   FetchPost ''/api/cart''
     (JObject [(''userId'', JString ''u1''),
               (''items'', JArray
                  [json_of_item example_item,
                   JObject [(''productId'', JString ''p4''), (''name'', JString ''Bagh Dupatta''),
                            (''price'', JNull), (''quantity'', JNumber 1)]])])
     \<in> set (snd (handleAddToCart signed_in_state example_p4 ResponseOk)) \<and>
   items_of_body
     (cart_body ''u1'' (cartItems (fst (handleAddToCart signed_in_state example_p4 ResponseOk))))
     = None \<and>
   map quantity (cartItems (fst (handleAddToCart full_cart_state example_p2 ResponseOk))) =
     [Finite 9007199254740992, Finite 1] \<and>
   cartCount (fst (handleAddToCart full_cart_state example_p2 ResponseOk)) =
     Finite 9007199254740992 \<and>
   (\<Sum>item\<leftarrow>cartItems (fst (handleAddToCart full_cart_state example_p2 ResponseOk)).
      finite_value (quantity item)) = 9007199254740993"
proof -
  have price: "priceNum example_p4 = PosInfinity"
    by (simp only: priceNum_def example_p4_def Product.simps parse_price_nines)
  have merged: "updatedCartItems [example_item] example_p4 =
     [example_item,
      \<lparr>productId = ''p4'', name = ''Bagh Dupatta'', price = PosInfinity,
        quantity = Finite 1\<rparr>]"
    by (simp add: updatedCartItems_def price) (simp add: example_item_def example_p4_def)
  have full: "updatedCartItems (cartItems full_cart_state) example_p2 =
     [example_item\<lparr>quantity := Finite 9007199254740992\<rparr>,
      \<lparr>productId = ''p2'', name = ''Phulkari Scarf'', price = Finite 800,
        quantity = Finite 1\<rparr>]"
    by (simp add: updatedCartItems_def priceNum_example_p2 full_cart_state_def)
      (simp add: example_item_def example_p2_def)
  have u: "user signed_in_state = Some example_user" "user full_cart_state = Some example_user"
    by (simp_all add: signed_in_state_def full_cart_state_def)
  have c: "cartItems signed_in_state = [example_item]"
    by (simp add: signed_in_state_def)
  have count: "total_quantity
     [example_item\<lparr>quantity := Finite 9007199254740992\<rparr>,
      \<lparr>productId = ''p2'', name = ''Phulkari Scarf'', price = Finite 800,
        quantity = Finite 1\<rparr>] = Finite 9007199254740992"
    using round_integer_exact [of 9007199254740992]
    by (simp add: total_quantity_def round_integer_2_53_plus_1)
  show ?thesis
    by (simp add: handleAddToCart_def Let_def u c merged full count)
      (simp add: cart_body_def json_of_item_def json_of_number_def items_of_body_def
        item_of_json_def example_user_def example_item_def finite_value_def)
qed

text \<open>
  C4. With an identity and a persist call that fails (a response that is not ok, or a
  rejected fetch), the effects after the POST are the log entry and the error toast,
  which closes by itself after 3000 ms; the only state updates are the two optimistic
  ones, and the state of the component afterwards has exactly the items and the count
  that they set.
\<close>

theorem persist_failure_keeps_optimistic_state:
  "user s = Some u \<Longrightarrow> outcome \<noteq> ResponseOk \<Longrightarrow>
     snd (handleAddToCart s p outcome) =
       [SetCartItems (updatedCartItems (cartItems s) p),
        SetCartCount (total_quantity (updatedCartItems (cartItems s) p)),
        FetchPost ''/api/cart'' (cart_body (uid u) (updatedCartItems (cartItems s) p)),
        ConsoleError ''Error updating the cart:'',
        ToastError ''Error updating your cart. Please try again.'' 3000] \<and>
     filter is_state_update (snd (handleAddToCart s p outcome)) =
       [SetCartItems (updatedCartItems (cartItems s) p),
        SetCartCount (total_quantity (updatedCartItems (cartItems s) p))] \<and>
     cartItems (fst (handleAddToCart s p outcome)) = updatedCartItems (cartItems s) p \<and>
     cartCount (fst (handleAddToCart s p outcome)) =
       total_quantity (updatedCartItems (cartItems s) p)"
  by (cases outcome) (simp_all add: handleAddToCart_def Let_def is_state_update_def)

theorem persist_failure_keeps_optimistic_state_witness:
  "user signed_in_state = Some example_user \<and> ResponseNotOk \<noteq> ResponseOk \<and>
   FetchRejected \<noteq> ResponseOk \<and>
   ToastError ''Error updating your cart. Please try again.'' 3000
     \<in> set (snd (handleAddToCart signed_in_state example_p1 ResponseNotOk)) \<and>
   cartItems (fst (handleAddToCart signed_in_state example_p1 ResponseNotOk)) =
     [example_item\<lparr>quantity := Finite 2\<rparr>] \<and>
   cartCount (fst (handleAddToCart signed_in_state example_p1 ResponseNotOk)) = Finite 2 \<and>
   cartItems (fst (handleAddToCart signed_in_state example_p1 FetchRejected)) =
     [example_item\<lparr>quantity := Finite 2\<rparr>] \<and>
   cartCount (fst (handleAddToCart signed_in_state example_p1 FetchRejected)) = Finite 2"
proof -
  have u: "user signed_in_state = Some example_user"
    by (simp add: signed_in_state_def)
  have c: "cartItems signed_in_state = [example_item]"
    by (simp add: signed_in_state_def)
  have n: "total_quantity [example_item\<lparr>quantity := Finite 2\<rparr>] = Finite 2"
    using js_add_exact [of 0 2] by (simp add: total_quantity_def)
  from persist_failure_keeps_optimistic_state [OF u, of ResponseNotOk example_p1]
    persist_failure_keeps_optimistic_state [OF u, of FetchRejected example_p1] u c n
  show ?thesis by (simp add: updatedCartItems_example)
qed

section \<open>Properties of the visible window\<close>

lemma sorted_of_visibleCount:
  "sorted_of f g (s\<lparr>visibleCount := n\<rparr>) = sorted_of f g s"
  by (simp add: sorted_of_def)

lemma observer_callback_le: "prev \<le> len \<Longrightarrow> observer_callback b rendered len prev \<le> len"
  by (simp add: observer_callback_def)

lemma observer_callback_done:
  "len \<le> rendered \<or> prev = len \<Longrightarrow> observer_callback b rendered len prev = prev"
  by (auto simp: observer_callback_def)

lemma visibleCount_sentinel_event:
  "visibleCount (sentinel_event f g b s) =
     (if b \<and> visibleCount s < length (sorted_of f g s)
      then min (visibleCount s + 10) (length (sorted_of f g s)) else visibleCount s)"
  by (simp add: sentinel_event_def observer_callback_def)

lemma sorted_of_sentinel_event: "sorted_of f g (sentinel_event f g b s) = sorted_of f g s"
  by (simp add: sentinel_event_def sorted_of_visibleCount)

text \<open>
  In a state in which the component has come to rest, the window size is at least 10,
  and it is above the length of the list only when it is 10.
\<close>

lemma settled_window:
  "settled f g s \<Longrightarrow>
     10 \<le> visibleCount s \<and> visibleCount s \<le> max 10 (length (sorted_of f g s))"
proof (induction rule: settled.induct)
  case settled_initial
  show ?case by (simp add: initial_state_def)
next
  case (settled_searchTerm s v)
  then show ?case by (simp add: setSearchTerm_def reset_effect_def)
next
  case (settled_sortOption s v)
  then show ?case by (simp add: setSortOption_def reset_effect_def)
next
  case (settled_filterJustIn s v)
  then show ?case by (simp add: setFilterJustIn_def reset_effect_def)
next
  case (settled_products s data)
  show ?case by (simp add: setProducts_def reset_effect_def)
next
  case (settled_sentinel s isIntersecting)
  then show ?case
    by (auto simp: visibleCount_sentinel_event sorted_of_sentinel_event)
next
  case (settled_other s n items u a l)
  then show ?case by (simp add: sorted_of_def)
qed

text \<open>
  C5, as the code has it. The products displayed are the first \<open>visibleCount\<close> entries
  of the sorted list, so their number never exceeds the length of that list. In every
  state in which the component has come to rest (after the reset effect of the last
  change of an input has run) the window size is at most the greater of 10 and the
  length of the list: it exceeds the length only when it is 10 and the list has fewer
  than 10 entries. A sentinel event leaves the list as it is; when the sentinel is
  visible and the window size below the length, it sets the window size to the smaller
  of the window size plus 10 and the length, and otherwise it leaves the window size as
  it is. So it takes a window size that is at most the length to one that is at most
  the length, and once the window size has reached the length (or is above it), a
  sentinel event changes nothing, also when the sentinel stays visible. The last two
  lines say the same of the callback alone, where the captured \<open>visibleCount\<close> and the
  state given to the updater may differ.
\<close>

theorem visible_window_capped:
  "length (visibleProducts (sorted_of f g s) (visibleCount s)) \<le> length (sorted_of f g s) \<and>
   (settled f g s \<longrightarrow>
      10 \<le> visibleCount s \<and> visibleCount s \<le> max 10 (length (sorted_of f g s))) \<and>
   sorted_of f g (sentinel_event f g b s) = sorted_of f g s \<and>
   visibleCount (sentinel_event f g b s) =
     (if b \<and> visibleCount s < length (sorted_of f g s)
      then min (visibleCount s + 10) (length (sorted_of f g s)) else visibleCount s) \<and>
   (visibleCount s \<le> length (sorted_of f g s) \<longrightarrow>
      visibleCount (sentinel_event f g b s) \<le> length (sorted_of f g s)) \<and>
   (length (sorted_of f g s) \<le> visibleCount s \<longrightarrow> sentinel_event f g b s = s) \<and>
   (prev \<le> len \<longrightarrow> observer_callback b rendered len prev \<le> len) \<and>
   (len \<le> rendered \<or> prev = len \<longrightarrow> observer_callback b rendered len prev = prev)"
proof (intro conjI impI)
  show "length (visibleProducts (sorted_of f g s) (visibleCount s)) \<le> length (sorted_of f g s)"
    by (simp add: visibleProducts_def)
  show "10 \<le> visibleCount s" if "settled f g s"
    using settled_window [OF that] by simp
  show "visibleCount s \<le> max 10 (length (sorted_of f g s))" if "settled f g s"
    using settled_window [OF that] by simp
  show "sorted_of f g (sentinel_event f g b s) = sorted_of f g s"
    by (rule sorted_of_sentinel_event)
  show "visibleCount (sentinel_event f g b s) =
     (if b \<and> visibleCount s < length (sorted_of f g s)
      then min (visibleCount s + 10) (length (sorted_of f g s)) else visibleCount s)"
    by (rule visibleCount_sentinel_event)
  show "visibleCount (sentinel_event f g b s) \<le> length (sorted_of f g s)"
    if "visibleCount s \<le> length (sorted_of f g s)"
    using that by (simp add: sentinel_event_def observer_callback_le)
  show "sentinel_event f g b s = s" if "length (sorted_of f g s) \<le> visibleCount s"
    using that by (simp add: sentinel_event_def observer_callback_done)
  show "observer_callback b rendered len prev \<le> len" if "prev \<le> len"
    using that by (rule observer_callback_le)
  show "observer_callback b rendered len prev = prev" if "len \<le> rendered \<or> prev = len"
    using that by (rule observer_callback_done)
qed

lemma length_insert_by: "length (insert_by cmp x ys) = Suc (length ys)"
  by (induction ys) simp_all

lemma length_sort_by: "length (sort_by cmp xs) = length xs"
  by (induction xs) (simp_all add: sort_by_def length_insert_by)

lemma length_sortedProducts: "length (sortedProducts g xs opt) = length xs"
  by (simp add: sortedProducts_def length_sort_by)

lemma string_includes_Nil: "string_includes s [] = True"
  by (cases s) simp_all

lemma visibleCount_setProducts: "visibleCount (setProducts data s) = 10"
  by (simp add: setProducts_def reset_effect_def)

lemma sorted_of_two_products:
  "sorted_of ascii_toLowerCase code_unit_compare
     (setProducts [example_p2, example_p1] initial_state) = [example_p1, example_p2]"
  by (simp add: sorted_of_def setProducts_def commit_products_def reset_effect_def
      initial_state_def filteredProducts_def sortedProducts_def sort_by_def
      ascii_toLowerCase_def example_p1_def example_p2_def)

lemma length_sorted_of_twelve:
  "length (sorted_of ascii_toLowerCase code_unit_compare
     (setProducts (replicate 12 example_p1) initial_state)) = 12"
  by (simp add: length_sortedProducts sorted_of_def setProducts_def commit_products_def
      reset_effect_def initial_state_def filteredProducts_def ascii_toLowerCase_def
      string_includes_Nil)

lemma twelve_revealed:
  "visibleCount (sentinel_event ascii_toLowerCase code_unit_compare True
       (setProducts (replicate 12 example_p1) initial_state)) = 12"
  by (simp add: visibleCount_sentinel_event length_sorted_of_twelve visibleCount_setProducts)

lemma no_scarf_among_twelve:
  "sorted_of ascii_toLowerCase code_unit_compare
     (commit_searchTerm ''scarf''
        (sentinel_event ascii_toLowerCase code_unit_compare True
           (setProducts (replicate 12 example_p1) initial_state))) = []"
proof -
  have "filteredProducts ascii_toLowerCase (replicate 12 example_p1) ''scarf'' '''' = []"
    by (simp add: filteredProducts_def ascii_toLowerCase_def example_p1_def)
  then show ?thesis
    by (simp add: sorted_of_def commit_searchTerm_def sentinel_event_def setProducts_def
        commit_products_def reset_effect_def initial_state_def sortedProducts_def sort_by_def)
qed

theorem visible_window_capped_witness:
  "settled ascii_toLowerCase code_unit_compare
     (setProducts [example_p2, example_p1] initial_state) \<and>
   visibleCount (setProducts [example_p2, example_p1] initial_state) = 10 \<and>
   length (sorted_of ascii_toLowerCase code_unit_compare
       (setProducts [example_p2, example_p1] initial_state)) = 2 \<and>
   sentinel_event ascii_toLowerCase code_unit_compare True
       (setProducts [example_p2, example_p1] initial_state)
     = setProducts [example_p2, example_p1] initial_state \<and>
   visibleCount (setProducts (replicate 12 example_p1) initial_state)
     \<le> length (sorted_of ascii_toLowerCase code_unit_compare
          (setProducts (replicate 12 example_p1) initial_state)) \<and>
   visibleCount (sentinel_event ascii_toLowerCase code_unit_compare True
       (setProducts (replicate 12 example_p1) initial_state)) = 12 \<and>
   observer_callback True 10 25 10 = 20 \<and> observer_callback True 20 25 20 = 25 \<and>
   observer_callback True 25 25 25 = 25"
proof -
  have r: "settled ascii_toLowerCase code_unit_compare
     (setProducts [example_p2, example_p1] initial_state)"
    by (intro settled_products settled_initial)
  from visible_window_capped [of ascii_toLowerCase code_unit_compare
      "setProducts (replicate 12 example_p1) initial_state" True 10 25 10]
    visible_window_capped [of ascii_toLowerCase code_unit_compare
      "setProducts [example_p2, example_p1] initial_state" True 25 25 25]
    r
  show ?thesis
    by (simp add: length_sorted_of_twelve sorted_of_two_products visibleCount_setProducts
        observer_callback_def)
qed

text \<open>
  C5, as the claim states it, fails: the window size starts at 10 and is set back to 10
  whatever the length of the list. After a catalog of two products has been loaded, the
  window size is 10 and the sorted list has two entries. It also fails in the render
  between a change of an input and its reset effect: with twelve products revealed, the
  render with the search term \<open>scarf\<close> has the window size 12 and an empty list.
\<close>

theorem visible_window_exceeds_counterexample:
  "visibleCount (setProducts [example_p2, example_p1] initial_state) = 10 \<and>
   sorted_of ascii_toLowerCase code_unit_compare
     (setProducts [example_p2, example_p1] initial_state) = [example_p1, example_p2] \<and>
   \<not> visibleCount (setProducts [example_p2, example_p1] initial_state)
       \<le> length (sorted_of ascii_toLowerCase code_unit_compare
            (setProducts [example_p2, example_p1] initial_state)) \<and>
   visibleCount
     (commit_searchTerm ''scarf''
        (sentinel_event ascii_toLowerCase code_unit_compare True
           (setProducts (replicate 12 example_p1) initial_state))) = 12 \<and>
   sorted_of ascii_toLowerCase code_unit_compare
     (commit_searchTerm ''scarf''
        (sentinel_event ascii_toLowerCase code_unit_compare True
           (setProducts (replicate 12 example_p1) initial_state))) = []"
proof -
  have "visibleCount (commit_searchTerm ''scarf'' s) = visibleCount s" for s
    by (simp add: commit_searchTerm_def)
  then show ?thesis
    by (simp add: sorted_of_two_products visibleCount_setProducts twelve_revealed
        no_scarf_among_twelve)
qed

text \<open>
  C6. Whatever the window size was, after the search term, the sort option or the
  recent filter has been set to another value, or the catalog has been set, the window
  size is the initial one, 10.
\<close>

theorem reset_on_input_change:
  "(t \<noteq> searchTerm s \<longrightarrow> visibleCount (setSearchTerm t s) = visibleCount initial_state) \<and>
   (opt \<noteq> sortOption s \<longrightarrow> visibleCount (setSortOption opt s) = visibleCount initial_state) \<and>
   (flt \<noteq> filterJustIn s \<longrightarrow>
      visibleCount (setFilterJustIn flt s) = visibleCount initial_state) \<and>
   visibleCount (setProducts data s) = visibleCount initial_state \<and>
   visibleCount initial_state = 10"
  by (simp add: setSearchTerm_def setSortOption_def setFilterJustIn_def setProducts_def
      reset_effect_def initial_state_def)

theorem reset_on_input_change_witness:
  "''scarf'' \<noteq> searchTerm (initial_state\<lparr>visibleCount := 30\<rparr>) \<and>
   visibleCount (setSearchTerm ''scarf'' (initial_state\<lparr>visibleCount := 30\<rparr>)) = 10 \<and>
   ''price-asc'' \<noteq> sortOption (initial_state\<lparr>visibleCount := 30\<rparr>) \<and>
   visibleCount (setSortOption ''price-asc'' (initial_state\<lparr>visibleCount := 30\<rparr>)) = 10 \<and>
   ''justIn'' \<noteq> filterJustIn (initial_state\<lparr>visibleCount := 30\<rparr>) \<and>
   visibleCount (setFilterJustIn ''justIn'' (initial_state\<lparr>visibleCount := 30\<rparr>)) = 10 \<and>
   visibleCount (setProducts [example_p1] (initial_state\<lparr>visibleCount := 30\<rparr>)) = 10"
  using reset_on_input_change
    [of "''scarf''" "initial_state\<lparr>visibleCount := 30\<rparr>" "''price-asc''" "''justIn''"
      "[example_p1]"]
  by (simp add: initial_state_def)

section \<open>Properties of the filter\<close>

lemma starts_with_iff: "starts_with s t = (\<exists>after. s = t @ after)"
  by (induction s t rule: starts_with.induct) auto

lemma string_includes_iff: "string_includes s t = contains_substring s t"
proof (induction s)
  case Nil
  show ?case by (auto simp: contains_substring_def)
next
  case (Cons c s)
  have "contains_substring (c # s) t = ((\<exists>after. c # s = t @ after) \<or> contains_substring s t)"
    unfolding contains_substring_def
  proof
    assume "\<exists>before after. c # s = before @ t @ after"
    then obtain before after where e: "c # s = before @ t @ after" by blast
    show "(\<exists>after. c # s = t @ after) \<or> (\<exists>before after. s = before @ t @ after)"
    proof (cases before)
      case Nil
      with e show ?thesis by auto
    next
      case (Cons b bs)
      with e have "s = bs @ t @ after" by simp
      then show ?thesis by blast
    qed
  next
    assume "(\<exists>after. c # s = t @ after) \<or> (\<exists>before after. s = before @ t @ after)"
    then show "\<exists>before after. c # s = before @ t @ after"
    proof
      assume "\<exists>after. c # s = t @ after"
      then obtain after where "c # s = [] @ t @ after" by auto
      then show ?thesis by blast
    next
      assume "\<exists>before after. s = before @ t @ after"
      then obtain before after where "c # s = (c # before) @ t @ after" by auto
      then show ?thesis by blast
    qed
  qed
  with Cons show ?case by (simp add: starts_with_iff)
qed

lemma filter_condition:
  "(if flt = '''' then True
    else if flt = ''justIn'' then product_justIn p = Some True
    else product_justIn p = Some False) = matches_recent_filter (recent_filter_of flt) p"
  by (simp add: recent_filter_of_def)

lemma filteredProducts_spec:
  "filteredProducts toLowerCase ps term flt =
     filter (\<lambda>p. contains_case_insensitive toLowerCase (product_name p) term \<and>
                 matches_recent_filter (recent_filter_of flt) p) ps"
  by (simp add: filteredProducts_def contains_case_insensitive_def string_includes_iff
      filter_condition)

text \<open>
  C8. \<open>filteredProducts\<close> keeps, in their order, exactly the products whose
  lower-cased name contains the lower-cased search term as a substring and which match
  the mode of the recent filter; a product is in the result if and only if it is in the
  catalog and passes both tests; and filtering the result again with the same term and
  mode returns it unchanged.
\<close>

theorem filter_case_insensitive_idempotent:
  "filteredProducts toLowerCase ps term flt =
     filter (\<lambda>p. contains_case_insensitive toLowerCase (product_name p) term \<and>
                 matches_recent_filter (recent_filter_of flt) p) ps \<and>
   (p \<in> set (filteredProducts toLowerCase ps term flt) \<longleftrightarrow>
      p \<in> set ps \<and> contains_case_insensitive toLowerCase (product_name p) term \<and>
      matches_recent_filter (recent_filter_of flt) p) \<and>
   filteredProducts toLowerCase (filteredProducts toLowerCase ps term flt) term flt =
     filteredProducts toLowerCase ps term flt"
proof (intro conjI)
  show "filteredProducts toLowerCase ps term flt =
     filter (\<lambda>p. contains_case_insensitive toLowerCase (product_name p) term \<and>
                 matches_recent_filter (recent_filter_of flt) p) ps"
    by (rule filteredProducts_spec)
  show "p \<in> set (filteredProducts toLowerCase ps term flt) \<longleftrightarrow>
      p \<in> set ps \<and> contains_case_insensitive toLowerCase (product_name p) term \<and>
      matches_recent_filter (recent_filter_of flt) p"
    by (simp add: filteredProducts_spec)
  show "filteredProducts toLowerCase (filteredProducts toLowerCase ps term flt) term flt =
     filteredProducts toLowerCase ps term flt"
    by (simp add: filteredProducts_def)
qed

theorem filter_case_insensitive_idempotent_witness:
  "filteredProducts ascii_toLowerCase [example_p1, example_p2] '''' ''justIn'' = [example_p1] \<and>
   filteredProducts ascii_toLowerCase [example_p1, example_p2] ''SCARF'' '''' = [example_p2] \<and>
   filter (\<lambda>p. contains_case_insensitive ascii_toLowerCase (product_name p) ''SCARF'' \<and>
               matches_recent_filter (recent_filter_of '''') p) [example_p1, example_p2] =
     [example_p2] \<and>
   filteredProducts ascii_toLowerCase
     (filteredProducts ascii_toLowerCase [example_p1, example_p2] ''SCARF'' '''') ''SCARF'' ''''
     = [example_p2]"
proof -
  have a: "filteredProducts ascii_toLowerCase [example_p1, example_p2] '''' ''justIn'' = [example_p1]"
    by (simp add: filteredProducts_def ascii_toLowerCase_def example_p1_def example_p2_def)
  have b: "filteredProducts ascii_toLowerCase [example_p1, example_p2] ''SCARF'' '''' = [example_p2]"
    by (simp add: filteredProducts_def ascii_toLowerCase_def example_p1_def example_p2_def)
  from filter_case_insensitive_idempotent
    [of ascii_toLowerCase "[example_p1, example_p2]" "''SCARF''" "''''" example_p2] a b
  show ?thesis by simp
qed

section \<open>Properties of the sort\<close>

lemma set_insert_by: "set (insert_by cmp x ys) = insert x (set ys)"
  by (induction ys) auto

lemma distinct_insert_by: "distinct (insert_by cmp x ys) = (x \<notin> set ys \<and> distinct ys)"
  by (induction ys) (auto simp: set_insert_by)

lemma sort_by_Cons: "sort_by cmp (x # xs) = insert_by cmp x (sort_by cmp xs)"
  by (simp add: sort_by_def)

lemma set_sort_by: "set (sort_by cmp xs) = set xs"
  by (induction xs) (simp_all add: sort_by_def set_insert_by)

lemma distinct_sort_by: "distinct (sort_by cmp xs) = distinct xs"
  by (induction xs)
    (simp_all add: sort_by_def distinct_insert_by set_sort_by [unfolded sort_by_def])

text \<open>
  On a set on which the comparator is total and transitive, inserting keeps a list
  sorted, so \<open>sort_by\<close> returns a sorted list.
\<close>

lemma sorted_insert_by:
  assumes total: "\<forall>a\<in>A. \<forall>b\<in>A. cmp a b \<le> 0 \<or> cmp b a \<le> 0"
    and trans: "\<forall>a\<in>A. \<forall>b\<in>A. \<forall>c\<in>A. cmp a b \<le> 0 \<and> cmp b c \<le> 0 \<longrightarrow> cmp a c \<le> 0"
    and "x \<in> A" and "set ys \<subseteq> A"
    and "sorted_wrt (\<lambda>a b. cmp a b \<le> 0) ys"
  shows "sorted_wrt (\<lambda>a b. cmp a b \<le> 0) (insert_by cmp x ys)"
  using assms(4,5)
proof (induction ys)
  case Nil
  show ?case by simp
next
  case (Cons y ys)
  from Cons.prems have y: "y \<in> A" and ys: "set ys \<subseteq> A"
    and below: "\<forall>z\<in>set ys. cmp y z \<le> 0" and tail: "sorted_wrt (\<lambda>a b. cmp a b \<le> 0) ys"
    by auto
  show ?case
  proof (cases "cmp x y \<le> 0")
    case True
    have "cmp x z \<le> 0" if "z \<in> set ys" for z
    proof -
      from that ys have "z \<in> A" by blast
      moreover from that below have "cmp y z \<le> 0" by blast
      ultimately show ?thesis using trans \<open>x \<in> A\<close> y True by blast
    qed
    with True below tail show ?thesis by simp
  next
    case False
    with total \<open>x \<in> A\<close> y have "cmp y x \<le> 0" by blast
    with False below show ?thesis
      by (simp add: set_insert_by Cons.IH [OF ys tail])
  qed
qed

lemma sorted_sort_by:
  assumes total: "\<forall>a\<in>A. \<forall>b\<in>A. cmp a b \<le> 0 \<or> cmp b a \<le> 0"
    and trans: "\<forall>a\<in>A. \<forall>b\<in>A. \<forall>c\<in>A. cmp a b \<le> 0 \<and> cmp b c \<le> 0 \<longrightarrow> cmp a c \<le> 0"
    and "set xs \<subseteq> A"
  shows "sorted_wrt (\<lambda>a b. cmp a b \<le> 0) (sort_by cmp xs)"
  using assms(3)
proof (induction xs)
  case Nil
  show ?case by (simp add: sort_by_def)
next
  case (Cons x xs)
  then have "x \<in> A" and "set (sort_by cmp xs) \<subseteq> A"
    and "sorted_wrt (\<lambda>a b. cmp a b \<le> 0) (sort_by cmp xs)"
    by (simp_all add: set_sort_by)
  then show ?case
    unfolding sort_by_Cons by (rule sorted_insert_by [OF total trans])
qed

text \<open>
  Two lists without repetition that hold the same elements and are sorted by the same
  antisymmetric relation are the same list.
\<close>

lemma sorted_wrt_unique:
  assumes "sorted_wrt P xs" and "sorted_wrt P ys"
    and "distinct xs" and "distinct ys" and "set xs = set ys"
    and antisym: "\<forall>a\<in>set xs. \<forall>b\<in>set xs. P a b \<and> P b a \<longrightarrow> a = b"
  shows "xs = ys"
  using assms
proof (induction xs arbitrary: ys)
  case Nil
  then show ?case by simp
next
  case (Cons x xs)
  from Cons.prems(5) obtain y ys' where ys: "ys = y # ys'"
    by (cases ys) auto
  have xy: "x = y"
  proof (rule ccontr)
    assume neq: "x \<noteq> y"
    with Cons.prems(5) ys have "x \<in> set ys'" and "y \<in> set xs" by auto
    with Cons.prems(1,2) ys have "P y x" and "P x y" by auto
    moreover from Cons.prems(5) ys have "x \<in> set (x # xs)" and "y \<in> set (x # xs)" by auto
    ultimately show False using Cons.prems(6) neq by blast
  qed
  from Cons.prems(3,4,5) ys xy have sets: "set xs = set ys'" by auto
  have "xs = ys'"
  proof (rule Cons.IH)
    from Cons.prems(1) show "sorted_wrt P xs" by simp
    from Cons.prems(2) ys show "sorted_wrt P ys'" by simp
    from Cons.prems(3) show "distinct xs" by simp
    from Cons.prems(4) ys show "distinct ys'" by simp
    show "set xs = set ys'" by (rule sets)
    from Cons.prems(6) show "\<forall>a\<in>set xs. \<forall>b\<in>set xs. P a b \<and> P b a \<longrightarrow> a = b" by simp
  qed
  with xy ys show ?case by simp
qed

lemma rev_sort_by_flip:
  assumes total: "\<forall>a\<in>set xs. \<forall>b\<in>set xs. cmp a b \<le> 0 \<or> cmp b a \<le> 0"
    and trans: "\<forall>a\<in>set xs. \<forall>b\<in>set xs. \<forall>c\<in>set xs.
                  cmp a b \<le> 0 \<and> cmp b c \<le> 0 \<longrightarrow> cmp a c \<le> 0"
    and antisym: "\<forall>a\<in>set xs. \<forall>b\<in>set xs. cmp a b \<le> 0 \<and> cmp b a \<le> 0 \<longrightarrow> a = b"
    and "distinct xs"
  shows "rev (sort_by cmp xs) = sort_by (\<lambda>a b. cmp b a) xs"
proof (rule sorted_wrt_unique [where P = "\<lambda>a b. cmp b a \<le> 0"])
  have "sorted_wrt (\<lambda>a b. cmp a b \<le> 0) (sort_by cmp xs)"
    by (rule sorted_sort_by [OF total trans]) simp
  then show "sorted_wrt (\<lambda>a b. cmp b a \<le> 0) (rev (sort_by cmp xs))"
    by (simp add: sorted_wrt_rev)
  from total have total': "\<forall>a\<in>set xs. \<forall>b\<in>set xs. cmp b a \<le> 0 \<or> cmp a b \<le> 0"
    by blast
  from trans
  have trans': "\<forall>a\<in>set xs. \<forall>b\<in>set xs. \<forall>c\<in>set xs.
                  cmp b a \<le> 0 \<and> cmp c b \<le> 0 \<longrightarrow> cmp c a \<le> 0"
    by blast
  show "sorted_wrt (\<lambda>a b. cmp b a \<le> 0) (sort_by (\<lambda>a b. cmp b a) xs)"
    by (rule sorted_sort_by [where cmp = "\<lambda>a b. cmp b a", OF total' trans']) simp
  from \<open>distinct xs\<close> show "distinct (rev (sort_by cmp xs))"
    by (simp add: distinct_sort_by)
  from \<open>distinct xs\<close> show "distinct (sort_by (\<lambda>a b. cmp b a) xs)"
    by (simp add: distinct_sort_by)
  show "set (rev (sort_by cmp xs)) = set (sort_by (\<lambda>a b. cmp b a) xs)"
    by (simp add: set_sort_by)
  from antisym
  show "\<forall>a\<in>set (rev (sort_by cmp xs)). \<forall>b\<in>set (rev (sort_by cmp xs)).
          cmp b a \<le> 0 \<and> cmp a b \<le> 0 \<longrightarrow> a = b"
    by (simp add: set_sort_by)
qed

text \<open>
  C9. Let \<open>localeCompare\<close> be a consistent comparator on the names of the list, as
  ECMAScript requires of the argument of \<open>sort\<close>: the sign of \<open>localeCompare a b\<close> is
  the opposite of the sign of \<open>localeCompare b a\<close>, and "not after" is transitive. If
  no two products of the list (at different positions) have names that compare equal,
  then the list sorted by name ascending and reversed is the list sorted by name
  descending.
\<close>

theorem name_ascending_reversed_is_name_descending:
  assumes sign: "\<forall>a\<in>product_name ` set xs. \<forall>b\<in>product_name ` set xs.
                   (localeCompare a b < 0) = (0 < localeCompare b a)"
    and trans: "\<forall>a\<in>product_name ` set xs. \<forall>b\<in>product_name ` set xs.
                  \<forall>c\<in>product_name ` set xs.
                    localeCompare a b \<le> 0 \<and> localeCompare b c \<le> 0 \<longrightarrow> localeCompare a c \<le> 0"
    and no_ties: "\<forall>i<length xs. \<forall>j<length xs.
                    i \<noteq> j \<longrightarrow> localeCompare (product_name (xs ! i)) (product_name (xs ! j)) \<noteq> 0"
  shows "rev (sortedProducts localeCompare xs ''name-asc'') =
           sortedProducts localeCompare xs ''name-desc''"
proof -
  let ?cmp = "\<lambda>a b. localeCompare (product_name a) (product_name b)"
  have refl: "?cmp a a = 0" if "a \<in> set xs" for a
  proof -
    from sign that have "(?cmp a a < 0) = (0 < ?cmp a a)" by blast
    then show ?thesis by linarith
  qed
  have dist: "distinct xs"
    unfolding distinct_conv_nth
  proof (intro allI impI)
    fix i j
    assume "i < length xs" "j < length xs" "i \<noteq> j"
    with no_ties have "?cmp (xs ! i) (xs ! j) \<noteq> 0" by blast
    with refl [of "xs ! i"] \<open>i < length xs\<close> show "xs ! i \<noteq> xs ! j" by auto
  qed
  have ties: "?cmp a b \<noteq> 0" if "a \<in> set xs" "b \<in> set xs" "a \<noteq> b" for a b
  proof -
    from that obtain i j where "i < length xs" "j < length xs" "xs ! i = a" "xs ! j = b"
      by (auto simp: in_set_conv_nth)
    with that(3) no_ties show ?thesis by blast
  qed
  have total: "\<forall>a\<in>set xs. \<forall>b\<in>set xs. ?cmp a b \<le> 0 \<or> ?cmp b a \<le> 0"
  proof (intro ballI)
    fix a b
    assume "a \<in> set xs" "b \<in> set xs"
    with sign have "(?cmp b a < 0) = (0 < ?cmp a b)" by blast
    then show "?cmp a b \<le> 0 \<or> ?cmp b a \<le> 0" by linarith
  qed
  have trans': "\<forall>a\<in>set xs. \<forall>b\<in>set xs. \<forall>c\<in>set xs.
                  ?cmp a b \<le> 0 \<and> ?cmp b c \<le> 0 \<longrightarrow> ?cmp a c \<le> 0"
    using trans by blast
  have antisym: "\<forall>a\<in>set xs. \<forall>b\<in>set xs. ?cmp a b \<le> 0 \<and> ?cmp b a \<le> 0 \<longrightarrow> a = b"
  proof (intro ballI impI)
    fix a b
    assume a: "a \<in> set xs" and b: "b \<in> set xs" and le: "?cmp a b \<le> 0 \<and> ?cmp b a \<le> 0"
    show "a = b"
    proof (rule ccontr)
      assume "a \<noteq> b"
      with a b have "?cmp a b \<noteq> 0" by (rule ties)
      with le have "?cmp a b < 0" by simp
      moreover from sign a b have "(?cmp a b < 0) = (0 < ?cmp b a)" by blast
      ultimately show False using le by simp
    qed
  qed
  have "rev (sort_by ?cmp xs) = sort_by (\<lambda>a b. ?cmp b a) xs"
    using total trans' antisym dist by (rule rev_sort_by_flip)
  then show ?thesis by (simp add: sortedProducts_def)
qed

theorem name_ascending_reversed_is_name_descending_witness:
  "code_unit_compare (product_name example_p2) (product_name example_p3) = 1 \<and>
   code_unit_compare (product_name example_p2) (product_name example_p1) = 1 \<and>
   code_unit_compare (product_name example_p3) (product_name example_p1) = - 1 \<and>
   sortedProducts code_unit_compare [example_p2, example_p3, example_p1] ''name-asc'' =
     [example_p3, example_p1, example_p2] \<and>
   rev (sortedProducts code_unit_compare [example_p2, example_p3, example_p1] ''name-asc'') =
     sortedProducts code_unit_compare [example_p2, example_p3, example_p1] ''name-desc'' \<and>
   sortedProducts code_unit_compare [example_p2, example_p3, example_p1] ''name-desc'' =
     [example_p2, example_p1, example_p3]"
proof -
  let ?xs = "[example_p2, example_p3, example_p1]"
  have sign: "\<forall>a\<in>product_name ` set ?xs. \<forall>b\<in>product_name ` set ?xs.
                (code_unit_compare a b < 0) = (0 < code_unit_compare b a)"
    by (simp add: example_p1_def example_p2_def example_p3_def)
  have trans: "\<forall>a\<in>product_name ` set ?xs. \<forall>b\<in>product_name ` set ?xs.
                 \<forall>c\<in>product_name ` set ?xs.
                   code_unit_compare a b \<le> 0 \<and> code_unit_compare b c \<le> 0 \<longrightarrow>
                   code_unit_compare a c \<le> 0"
    by (simp add: example_p1_def example_p2_def example_p3_def)
  have no_ties: "\<forall>i<length ?xs. \<forall>j<length ?xs.
                   i \<noteq> j \<longrightarrow>
                   code_unit_compare (product_name (?xs ! i)) (product_name (?xs ! j)) \<noteq> 0"
    by (simp add: example_p1_def example_p2_def example_p3_def All_less_Suc
        numeral_3_eq_3)
  have asc: "sortedProducts code_unit_compare ?xs ''name-asc'' =
               [example_p3, example_p1, example_p2]"
    by (simp add: sortedProducts_def sort_by_def example_p1_def example_p2_def example_p3_def)
  have pairs:
    "code_unit_compare (product_name example_p2) (product_name example_p3) = 1 \<and>
     code_unit_compare (product_name example_p2) (product_name example_p1) = 1 \<and>
     code_unit_compare (product_name example_p3) (product_name example_p1) = - 1"
    by (simp add: example_p1_def example_p2_def example_p3_def)
  from name_ascending_reversed_is_name_descending [OF sign trans no_ties] pairs asc
  show ?thesis by simp
qed

end
